theory Spec2Isabelle
  imports Complex_Main "HOL-Library.Word"
begin

section \<open>Basic types\<close>

type_synonym uint8 = "8 word"
type_synonym uint32 = "32 word"
type_synonym int32 = "32 word"

text \<open>
  A pointer (\<open>FBO *\<close>, \<open>Shader *\<close>, \<open>Texture *\<close>, \<open>BufferObject *\<close> and the
  \<open>Util::Reference\<close> wrappers around them) is the address it holds; \<open>nullptr\<close> is 0.
\<close>

type_synonym ptr = nat

definition nullptr :: ptr where
  "nullptr = 0"

text \<open>
  What can be thrown. The library itself throws \<open>std::runtime_error\<close> and
  \<open>std::out_of_range\<close>; a collaborator may throw any class derived from
  \<open>std::exception\<close>, whose \<open>what\<close> is the message, or an object of a class that is not
  derived from it (C++ lets any object be thrown), told apart here by a number.
\<close>

datatype std_exception = runtime_error string | out_of_range string | derived_exception string

fun what :: "std_exception \<Rightarrow> string" where
  "what (runtime_error m) = m"
| "what (out_of_range m) = m"
| "what (derived_exception m) = m"

datatype exn = Std std_exception | Foreign nat

text \<open>
  A member function that may throw returns its outcome together with the state it leaves
  behind: the object is mutated in place, so what was written before the throw stays written.
\<close>

datatype 'a outcome = Returns 'a | Throws exn

text \<open>\<open>Geometry::Rect_i\<close>: an integer rectangle.\<close>

record Rect_i =
  rect_x :: int32
  rect_y :: int32
  rect_width :: int32
  rect_height :: int32

section \<open>Records of RenderingContext.cpp\<close>

text \<open>
  The parameter classes of RenderingParameters.h (\<open>BlendingParameters\<close>,
  \<open>CullFaceParameters\<close>, \<open>MaterialParameters\<close>, ...) are not part of the sources; the
  functions below only copy values of these classes, so they are the type variable \<open>'p\<close>.
  \<open>Geometry::Matrix4x4\<close> is the type variable \<open>'m\<close>.
\<close>

record 'm FrameData =
  matrix_worldToCamera :: 'm
  matrix_cameraToWorld :: 'm
  matrix_cameraToClipping :: 'm
  matrix_clippingToCamera :: 'm
  fd_viewport :: Rect_i \<comment> \<open>the \<open>Vec4\<close> built from x, y, width and height of the rectangle\<close>

record ('p, 'm) ObjectData =
  matrix_modelToCamera :: 'm
  pointSize :: 'p
  materialId :: uint32
  lightSetId :: uint32
  drawId :: uint32


definition MAX_ENABLED_LIGHTS :: uint32 where
  "MAX_ENABLED_LIGHTS = 8"

record LightSet =
  count :: uint32
  lights :: "uint32 list" \<comment> \<open>\<open>std::array<uint32_t, MAX_ENABLED_LIGHTS>\<close>\<close>

record 'p MaterialData =
  mat :: 'p
  enabled :: uint32
  pad :: "64 word"

text \<open>The converting constructor \<open>MaterialData(const MaterialParameters &)\<close>.\<close>

definition MaterialData_of :: "'p \<Rightarrow> 'p MaterialData" where
  "MaterialData_of m = \<lparr>mat = m, enabled = 1, pad = 0\<rparr>"

text \<open>
  \<open>ImageBindParameters\<close>, as far as \<open>setBoundImage\<close> reads it.
\<close>

record ImageBindParameters =
  texture :: ptr
  layer :: uint32
  level :: uint32
  multiLayer :: bool
  readOperations :: bool
  writeOperations :: bool

text \<open>
  A light descriptor is compared as the bytes of its object representation, so
  \<open>LightParameters\<close> is that byte image; \<open>sizeof(LightParameters)\<close> is its length.
\<close>

type_synonym LightParameters = "uint8 list"

text \<open>
  \<open>std::memcmp\<close> on the first \<open>n\<close> bytes: the sign of the first difference, bytes read
  as unsigned. The last equation is a read past the end of an object, which no call of
  \<open>LightCompare\<close> on two descriptors of the same size makes.
\<close>

fun memcmp :: "uint8 list \<Rightarrow> uint8 list \<Rightarrow> nat \<Rightarrow> int" where
  "memcmp _ _ 0 = 0"
| "memcmp (a # xs) (b # ys) (Suc n) =
     (if a = b then memcmp xs ys n else if a < b then - 1 else 1)"
| "memcmp _ _ (Suc n) = 0"

definition LightCompare :: "LightParameters \<Rightarrow> LightParameters \<Rightarrow> bool" where
  "LightCompare l1 l2 = (memcmp l1 l2 (length l1) < 0)"

text \<open>
  \<open>std::map<LightParameters, uint8_t, LightCompare>\<close>: the entries, with the lookup the
  ordered map makes: a key is found when neither it nor the argument is less than the other.
\<close>

type_synonym LightRegistry = "(LightParameters \<times> uint8) list"

definition lightRegistry_find :: "LightRegistry \<Rightarrow> LightParameters \<Rightarrow> (LightParameters \<times> uint8) option" where
  "lightRegistry_find reg l = find (\<lambda>(k, v). \<not> LightCompare k l \<and> \<not> LightCompare l k) reg"

definition lightRegistry_emplace :: "LightParameters \<Rightarrow> uint8 \<Rightarrow> LightRegistry \<Rightarrow> LightRegistry" where
  "lightRegistry_emplace l n reg =
     (case lightRegistry_find reg l of None \<Rightarrow> reg @ [(l, n)] | Some _ \<Rightarrow> reg)"

text \<open>
  Modelled from the spec: \<open>PipelineState\<close> (PipelineState.h is not part of the sources), the
  flat aggregate of the tracked state categories. Each \<open>getX\<close>/\<open>setX\<close> pair of the class
  is the read and the update of one field.
\<close>

record 'p PipelineState =
  blendingParameters :: 'p
  colorBufferParameters :: 'p
  cullFaceParameters :: 'p
  depthBufferParameters :: 'p
  lineParameters :: 'p
  polygonModeParameters :: 'p
  polygonOffsetParameters :: 'p
  scissorParameters :: 'p
  stencilParameters :: 'p
  fbo :: ptr
  shader :: ptr
  textures :: "nat \<Rightarrow> ptr"
  viewport :: Rect_i

text \<open>
  Modelled from the spec: \<open>ParameterCache\<close> (ParameterCache.h is not part of the sources).
  One field per slot the constructor creates. \<open>setParameter\<close> overwrites the record at an
  index, \<open>addParameter\<close> appends at the cursor of the slot and returns the index it wrote,
  \<open>swap\<close> moves to the next buffer of the slot and resets the cursor. The streamed
  object-data slot is the list of the records appended to its current buffer; its cursor
  is the length of that list.
\<close>

record ('p, 'm) ParameterCache =
  FrameData_slot :: "'m FrameData option"
  ObjectData_slot :: "('p, 'm) ObjectData list"
  ObjectData_buffer :: nat
  MaterialData_slot :: "'p MaterialData option"
  LightData_slot :: "uint8 \<Rightarrow> LightParameters option"
  LightSetData_slot :: "LightSet option"
  TextureSetData_slot :: "(nat \<Rightarrow> uint32) option"

text \<open>
  The calls the context makes to the device and to the collaborators whose sources are
  absent (the GL entry points, \<open>PipelineState\<close>, \<open>ParameterCache\<close>, the shader and its
  uniform registry), in the order they are made.
\<close>

datatype call =
    PipelineState_makeDiff bool
  | PipelineState_apply
  | ParameterCache_setParameter string nat
  | ParameterCache_addParameter string
  | ParameterCache_swap string
  | ParameterCache_bind string int uint32 bool
  | UniformRegistry_performGlobalSync
  | Shader_applyUniforms bool
  | Texture_prepareForBinding ptr
  | GET_GL_ERROR
  | glFlush
  | glFinish
  | glMemoryBarrier uint32
  | glDispatchCompute uint32 uint32 uint32
  | glBindImageTexture uint8 ptr
  | glDrawArraysInstancedBaseInstance uint32 uint32 uint32 uint32 uint32
  | glDrawElementsInstancedBaseVertexBaseInstance uint32 uint32 uint32 uint32 uint32 uint32 uint32

text \<open>
  \<open>RenderingContext::InternalData\<close>. A \<open>std::stack\<close> is the list of its elements, top
  first. A \<open>std::array\<close> indexed by a texture or image unit is a function of the unit: the
  code reads and writes it only behind a range check. \<open>warnings\<close> is the channel of the
  \<open>WARN\<close> macro and \<open>calls\<close> the sequence of calls described above.
\<close>

record ('p, 'm) InternalData =
  cache :: "('p, 'm) ParameterCache"
  targetPipelineState :: "'p PipelineState"
  activePipelineState :: "'p PipelineState"
  blendingParameterStack :: "'p list"
  colorBufferParameterStack :: "'p list"
  cullFaceParameterStack :: "'p list"
  depthBufferParameterStack :: "'p list"
  imageStacks :: "nat \<Rightarrow> ImageBindParameters list"
  boundImages :: "nat \<Rightarrow> ImageBindParameters"
  lineParameterStack :: "'p list"
  polygonModeParameterStack :: "'p list"
  polygonOffsetParameterStack :: "'p list"
  scissorParametersStack :: "'p list"
  stencilParameterStack :: "'p list"
  fboStack :: "ptr list"
  shaderStack :: "ptr list"
  projectionMatrixStack :: "'m list"
  viewportStack :: "Rect_i list"
  activeFrameData :: "'m FrameData"
  matrixStack :: "'m list"
  pointParameterStack :: "'p list"
  activeObjectData :: "('p, 'm) ObjectData"
  materialStack :: "'p MaterialData list"
  activeMaterial :: "'p MaterialData"
  lightRegistry :: LightRegistry
  freeLightIds :: "uint8 set"
  activeLightSet :: LightSet
  textureStacks :: "nat \<Rightarrow> ptr list"
  enabledTextures :: "nat \<Rightarrow> uint32"
  warnings :: "string list"
  calls :: "call list"

definition WARN :: "string \<Rightarrow> ('p, 'm) InternalData \<Rightarrow> ('p, 'm) InternalData" where
  "WARN msg s = s\<lparr>warnings := warnings s @ [msg]\<rparr>"

definition issue :: "call \<Rightarrow> ('p, 'm) InternalData \<Rightarrow> ('p, 'm) InternalData" where
  "issue c s = s\<lparr>calls := calls s @ [c]\<rparr>"

section \<open>Lights\<close>

subsection \<open>The active light set\<close>

text \<open>
  The loop of \<open>enableLight(uint8_t)\<close>: whether a slot below \<open>count\<close>, from \<open>i\<close> on,
  holds the light.
\<close>

function enableLight_scan :: "nat \<Rightarrow> uint8 \<Rightarrow> LightSet \<Rightarrow> bool" where
  "enableLight_scan i lightNumber ls =
     (if i < unat (count ls)
      then (if lights ls ! i = ucast lightNumber then True
            else enableLight_scan (Suc i) lightNumber ls)
      else False)"
  by pat_completeness auto
termination
  by (relation "measure (\<lambda>(i, n, ls). unat (count ls) - i)") auto

declare enableLight_scan.simps [simp del]

definition enableLight_id :: "uint8 \<Rightarrow> ('p, 'm) InternalData \<Rightarrow> ('p, 'm) InternalData" where
  "enableLight_id lightNumber s =
     (let ls = activeLightSet s in
      if enableLight_scan 0 lightNumber ls then s
      else if count ls \<ge> MAX_ENABLED_LIGHTS
      then WARN ''Cannot enable more lights; ignoring call.'' s
      else s\<lparr>activeLightSet :=
             \<lparr>count = count ls + 1,
              lights = (lights ls)[unat (count ls) := ucast lightNumber]\<rparr>\<rparr>)"

text \<open>
  The loop of \<open>disableLight\<close>, from position \<open>pos\<close> on: at the first slot that holds the
  light the count is decremented and the slot is swapped with the slot at the new count.
\<close>

function disableLight_from :: "nat \<Rightarrow> uint8 \<Rightarrow> LightSet \<Rightarrow> LightSet" where
  "disableLight_from pos lightNumber ls =
     (if pos < unat (count ls)
      then (if lights ls ! pos = ucast lightNumber
            then (let c = count ls - 1 in
                  \<lparr>count = c,
                   lights = (lights ls)[pos := lights ls ! unat c, unat c := lights ls ! pos]\<rparr>)
            else disableLight_from (Suc pos) lightNumber ls)
      else ls)"
  by pat_completeness auto
termination
  by (relation "measure (\<lambda>(pos, n, ls). unat (count ls) - pos)") auto

declare disableLight_from.simps [simp del]

definition disableLight :: "uint8 \<Rightarrow> ('p, 'm) InternalData \<Rightarrow> ('p, 'm) InternalData" where
  "disableLight lightNumber s =
     s\<lparr>activeLightSet := disableLight_from 0 lightNumber (activeLightSet s)\<rparr>"

text \<open>The lights that are enabled: the slots below \<open>count\<close>.\<close>

definition activeLights :: "LightSet \<Rightarrow> uint32 list" where
  "activeLights ls = take (unat (count ls)) (lights ls)"

subsection \<open>The light registry\<close>

definition PARAMETER_LIGHTDATA :: string where
  "PARAMETER_LIGHTDATA = ''LightData''"

text \<open>\<open>cache.setParameter(PARAMETER_LIGHTDATA, index, light)\<close>.\<close>

definition cache_setLightData :: "uint8 \<Rightarrow> LightParameters \<Rightarrow> ('p, 'm) InternalData \<Rightarrow> ('p, 'm) InternalData" where
  "cache_setLightData index light s =
     issue (ParameterCache_setParameter PARAMETER_LIGHTDATA (unat index))
       (s\<lparr>cache := (cache s)\<lparr>LightData_slot := (LightData_slot (cache s))(index := Some light)\<rparr>\<rparr>)"

text \<open>
  \<open>registerLight\<close>: \<open>*freeLightIds.begin()\<close> of the ordered set is its least element;
  \<open>std::numeric_limits<uint8_t>::max()\<close> is 255.
\<close>

definition registerLight :: "LightParameters \<Rightarrow> ('p, 'm) InternalData \<Rightarrow> uint8 \<times> ('p, 'm) InternalData" where
  "registerLight light s =
     (if freeLightIds s = {}
      then (255, WARN ''Cannot register more lights; ignoring call.'' s)
      else (let n = Min (freeLightIds s);
                s1 = s\<lparr>freeLightIds := freeLightIds s - {n}\<rparr>
            in (n, cache_setLightData n light s1)))"

definition setLight :: "uint8 \<Rightarrow> LightParameters \<Rightarrow> ('p, 'm) InternalData \<Rightarrow> ('p, 'm) InternalData" where
  "setLight lightNumber light s =
     cache_setLightData lightNumber light
       (if lightNumber \<in> freeLightIds s
        then s\<lparr>freeLightIds := freeLightIds s - {lightNumber}\<rparr> else s)"

definition unregisterLight :: "uint8 \<Rightarrow> ('p, 'm) InternalData \<Rightarrow> ('p, 'm) InternalData" where
  "unregisterLight lightNumber s = s\<lparr>freeLightIds := insert lightNumber (freeLightIds s)\<rparr>"

text \<open>\<open>enableLight(const LightParameters &)\<close>.\<close>

definition enableLight :: "LightParameters \<Rightarrow> ('p, 'm) InternalData \<Rightarrow> uint8 \<times> ('p, 'm) InternalData" where
  "enableLight light s =
     (case lightRegistry_find (lightRegistry s) light of
        None \<Rightarrow>
          (let (n, s1) = registerLight light s;
               s2 = s1\<lparr>lightRegistry := lightRegistry_emplace light n (lightRegistry s1)\<rparr>
           in (n, enableLight_id n s2))
      | Some (k, n) \<Rightarrow> (n, enableLight_id n s))"

text \<open>Registering the descriptors of a list one after the other; the ids in the same order.\<close>

fun registerLights :: "LightParameters list \<Rightarrow> ('p, 'm) InternalData \<Rightarrow> uint8 list \<times> ('p, 'm) InternalData" where
  "registerLights [] s = ([], s)"
| "registerLights (l # ls) s =
     (let (n, s1) = registerLight l s; (ns, s2) = registerLights ls s1 in (n # ns, s2))"

section \<open>Construction\<close>

text \<open>
  The constructor \<open>RenderingContext::RenderingContext()\<close>. The default-constructed values
  of the parameter classes are given by \<open>dflt\<close> (by class name; \<open>''CULL_BACK''\<close> and
  \<open>''DepthTestLess''\<close> stand for the two values the constructor names), the identity matrix
  by \<open>identity\<close>. The free light ids are inserted by the loop over \<open>0 \<le> i < 255\<close>.
\<close>

definition ImageBindParameters_default :: ImageBindParameters where
  "ImageBindParameters_default =
     \<lparr>texture = nullptr, layer = 0, level = 0, multiLayer = False,
      readOperations = True, writeOperations = True\<rparr>"

definition Rect_i_default :: Rect_i where
  "Rect_i_default = \<lparr>rect_x = 0, rect_y = 0, rect_width = 0, rect_height = 0\<rparr>"

definition PipelineState_default :: "(string \<Rightarrow> 'p) \<Rightarrow> 'p PipelineState" where
  "PipelineState_default dflt =
     \<lparr>blendingParameters = dflt ''BlendingParameters'',
      colorBufferParameters = dflt ''ColorBufferParameters'',
      cullFaceParameters = dflt ''CullFaceParameters'',
      depthBufferParameters = dflt ''DepthBufferParameters'',
      lineParameters = dflt ''LineParameters'',
      polygonModeParameters = dflt ''PolygonModeParameters'',
      polygonOffsetParameters = dflt ''PolygonOffsetParameters'',
      scissorParameters = dflt ''ScissorParameters'',
      stencilParameters = dflt ''StencilParameters'',
      fbo = nullptr, shader = nullptr, textures = (\<lambda>unit. nullptr),
      viewport = Rect_i_default\<rparr>"

definition RenderingContext_ctor :: "(string \<Rightarrow> 'p) \<Rightarrow> 'm \<Rightarrow> ('p, 'm) InternalData" where
  "RenderingContext_ctor dflt identity =
     \<lparr>cache = \<lparr>FrameData_slot = None, ObjectData_slot = [], ObjectData_buffer = 0,
               MaterialData_slot = None, LightData_slot = (\<lambda>index. None),
               LightSetData_slot = None, TextureSetData_slot = None\<rparr>,
      targetPipelineState = (PipelineState_default dflt)
        \<lparr>cullFaceParameters := dflt ''CULL_BACK'',
         depthBufferParameters := dflt ''DepthTestLess''\<rparr>,
      activePipelineState = PipelineState_default dflt,
      blendingParameterStack = [],
      colorBufferParameterStack = [],
      cullFaceParameterStack = [],
      depthBufferParameterStack = [],
      imageStacks = (\<lambda>unit. []),
      boundImages = (\<lambda>unit. ImageBindParameters_default),
      lineParameterStack = [],
      polygonModeParameterStack = [],
      polygonOffsetParameterStack = [],
      scissorParametersStack = [],
      stencilParameterStack = [],
      fboStack = [],
      shaderStack = [],
      projectionMatrixStack = [],
      viewportStack = [],
      activeFrameData =
        \<lparr>matrix_worldToCamera = identity, matrix_cameraToWorld = identity,
         matrix_cameraToClipping = identity, matrix_clippingToCamera = identity,
         fd_viewport = Rect_i_default\<rparr>,
      matrixStack = [],
      pointParameterStack = [],
      activeObjectData =
        \<lparr>matrix_modelToCamera = identity, pointSize = dflt ''PointParameters'',
         materialId = 0, lightSetId = 0, drawId = 0\<rparr>,
      materialStack = [],
      activeMaterial = MaterialData_of (dflt ''MaterialParameters''),
      lightRegistry = [],
      freeLightIds = fold (\<lambda>i ids. insert (of_nat i) ids) [0 ..< 255] {},
      activeLightSet = \<lparr>count = 0, lights = [0, 0, 0, 0, 0, 0, 0, 0]\<rparr>,
      textureStacks = (\<lambda>unit. []),
      enabledTextures = (\<lambda>unit. 0),
      warnings = [],
      calls = []\<rparr>"

text \<open>
  The active light set as the code keeps it: eight slots, at most eight of them enabled,
  and no light enabled twice.
\<close>

definition LightSet_wf :: "LightSet \<Rightarrow> bool" where
  "LightSet_wf ls \<longleftrightarrow>
     length (lights ls) = 8 \<and> unat (count ls) \<le> 8 \<and> distinct (activeLights ls)"


section \<open>The collaborators\<close>

text \<open>
  What the functions below take from code that is not part of the sources: the two
  array sizes \<open>MAX_TEXTURES\<close> and \<open>MAX_BOUND_IMAGES\<close>, whether the driver supports image
  binding, the inverse of a matrix, the interface blocks a shader declares (name,
  location and target of each), the size of a GL type, and \<open>raises\<close>: whether a call to a
  collaborator throws, given the calls made so far.
\<close>

record 'm env =
  MAX_TEXTURES :: nat
  MAX_BOUND_IMAGES :: nat
  isImageBindingSupported :: bool
  matrix_inverse :: "'m \<Rightarrow> 'm"
  getInterfaceBlocks :: "ptr \<Rightarrow> (string \<times> int \<times> uint32) list"
  getGLTypeSize :: "uint32 \<Rightarrow> uint32"
  raises :: "call list \<Rightarrow> call \<Rightarrow> exn option"

text \<open>A call to a collaborator that may throw: the call is recorded either way.\<close>

definition invoke :: "'m env \<Rightarrow> call \<Rightarrow> ('p, 'm) InternalData \<Rightarrow> unit outcome \<times> ('p, 'm) InternalData" where
  "invoke env c s =
     (case raises env (calls s) c of
        Some e \<Rightarrow> (Throws e, issue c s)
      | None \<Rightarrow> (Returns (), issue c s))"

text \<open>Sequencing: the second action runs when the first has returned.\<close>

definition andThen :: "(('p, 'm) InternalData \<Rightarrow> unit outcome \<times> ('p, 'm) InternalData) \<Rightarrow>
    (('p, 'm) InternalData \<Rightarrow> 'a outcome \<times> ('p, 'm) InternalData) \<Rightarrow>
    ('p, 'm) InternalData \<Rightarrow> 'a outcome \<times> ('p, 'm) InternalData" where
  "andThen f g s = (case f s of (Returns u, s1) \<Rightarrow> g s1 | (Throws e, s1) \<Rightarrow> (Throws e, s1))"

definition returns :: "(('p, 'm) InternalData \<Rightarrow> ('p, 'm) InternalData) \<Rightarrow>
    ('p, 'm) InternalData \<Rightarrow> unit outcome \<times> ('p, 'm) InternalData" where
  "returns f s = (Returns (), f s)"

section \<open>The scoped setters\<close>

text \<open>
  One group of \<open>get\<close>, \<open>push\<close>, \<open>set\<close>, \<open>pushAndSet\<close> and \<open>pop\<close> per state category, in
  the order of RenderingContext.cpp.
\<close>

subsection \<open>Blending\<close>

definition getBlendingParameters :: "('p, 'm) InternalData \<Rightarrow> 'p" where
  "getBlendingParameters s = blendingParameters (targetPipelineState s)"

definition setBlending :: "'p \<Rightarrow> ('p, 'm) InternalData \<Rightarrow> ('p, 'm) InternalData" where
  "setBlending p s = s\<lparr>targetPipelineState := (targetPipelineState s)\<lparr>blendingParameters := p\<rparr>\<rparr>"

definition pushBlending :: "('p, 'm) InternalData \<Rightarrow> ('p, 'm) InternalData" where
  "pushBlending s = s\<lparr>blendingParameterStack := blendingParameters (targetPipelineState s) # blendingParameterStack s\<rparr>"

definition pushAndSetBlending :: "'p \<Rightarrow> ('p, 'm) InternalData \<Rightarrow> ('p, 'm) InternalData" where
  "pushAndSetBlending p s = setBlending p (pushBlending s)"

definition popBlending :: "('p, 'm) InternalData \<Rightarrow> ('p, 'm) InternalData" where
  "popBlending s =
     (case blendingParameterStack s of
        [] \<Rightarrow> WARN ''popBlending: Empty Blending-Stack'' s
      | saved # rest \<Rightarrow> (setBlending saved s)\<lparr>blendingParameterStack := rest\<rparr>)"

subsection \<open>ColorBuffer\<close>

definition getColorBufferParameters :: "('p, 'm) InternalData \<Rightarrow> 'p" where
  "getColorBufferParameters s = colorBufferParameters (targetPipelineState s)"

definition setColorBuffer :: "'p \<Rightarrow> ('p, 'm) InternalData \<Rightarrow> ('p, 'm) InternalData" where
  "setColorBuffer p s = s\<lparr>targetPipelineState := (targetPipelineState s)\<lparr>colorBufferParameters := p\<rparr>\<rparr>"

definition pushColorBuffer :: "('p, 'm) InternalData \<Rightarrow> ('p, 'm) InternalData" where
  "pushColorBuffer s = s\<lparr>colorBufferParameterStack := colorBufferParameters (targetPipelineState s) # colorBufferParameterStack s\<rparr>"

definition pushAndSetColorBuffer :: "'p \<Rightarrow> ('p, 'm) InternalData \<Rightarrow> ('p, 'm) InternalData" where
  "pushAndSetColorBuffer p s = setColorBuffer p (pushColorBuffer s)"

definition popColorBuffer :: "('p, 'm) InternalData \<Rightarrow> ('p, 'm) InternalData" where
  "popColorBuffer s =
     (case colorBufferParameterStack s of
        [] \<Rightarrow> WARN ''popColorBuffer: Empty ColorBuffer stack'' s
      | saved # rest \<Rightarrow> (setColorBuffer saved s)\<lparr>colorBufferParameterStack := rest\<rparr>)"

subsection \<open>CullFace\<close>

definition getCullFaceParameters :: "('p, 'm) InternalData \<Rightarrow> 'p" where
  "getCullFaceParameters s = cullFaceParameters (targetPipelineState s)"

definition setCullFace :: "'p \<Rightarrow> ('p, 'm) InternalData \<Rightarrow> ('p, 'm) InternalData" where
  "setCullFace p s = s\<lparr>targetPipelineState := (targetPipelineState s)\<lparr>cullFaceParameters := p\<rparr>\<rparr>"

definition pushCullFace :: "('p, 'm) InternalData \<Rightarrow> ('p, 'm) InternalData" where
  "pushCullFace s = s\<lparr>cullFaceParameterStack := cullFaceParameters (targetPipelineState s) # cullFaceParameterStack s\<rparr>"

definition pushAndSetCullFace :: "'p \<Rightarrow> ('p, 'm) InternalData \<Rightarrow> ('p, 'm) InternalData" where
  "pushAndSetCullFace p s = setCullFace p (pushCullFace s)"

definition popCullFace :: "('p, 'm) InternalData \<Rightarrow> ('p, 'm) InternalData" where
  "popCullFace s =
     (case cullFaceParameterStack s of
        [] \<Rightarrow> WARN ''popCullFace: Empty CullFace-Stack'' s
      | saved # rest \<Rightarrow> (setCullFace saved s)\<lparr>cullFaceParameterStack := rest\<rparr>)"

subsection \<open>DepthBuffer\<close>

definition getDepthBufferParameters :: "('p, 'm) InternalData \<Rightarrow> 'p" where
  "getDepthBufferParameters s = depthBufferParameters (targetPipelineState s)"

definition setDepthBuffer :: "'p \<Rightarrow> ('p, 'm) InternalData \<Rightarrow> ('p, 'm) InternalData" where
  "setDepthBuffer p s = s\<lparr>targetPipelineState := (targetPipelineState s)\<lparr>depthBufferParameters := p\<rparr>\<rparr>"

definition pushDepthBuffer :: "('p, 'm) InternalData \<Rightarrow> ('p, 'm) InternalData" where
  "pushDepthBuffer s = s\<lparr>depthBufferParameterStack := depthBufferParameters (targetPipelineState s) # depthBufferParameterStack s\<rparr>"

definition pushAndSetDepthBuffer :: "'p \<Rightarrow> ('p, 'm) InternalData \<Rightarrow> ('p, 'm) InternalData" where
  "pushAndSetDepthBuffer p s = setDepthBuffer p (pushDepthBuffer s)"

definition popDepthBuffer :: "('p, 'm) InternalData \<Rightarrow> ('p, 'm) InternalData" where
  "popDepthBuffer s =
     (case depthBufferParameterStack s of
        [] \<Rightarrow> WARN ''popDepthBuffer: Empty DepthBuffer stack'' s
      | saved # rest \<Rightarrow> (setDepthBuffer saved s)\<lparr>depthBufferParameterStack := rest\<rparr>)"

subsection \<open>ImageBinding\<close>

text \<open>
  The code is modelled as compiled with \<open>GL_ARB_shader_image_load_store\<close> defined. The
  access mode and the format that \<open>setBoundImage\<close> computes for \<open>glBindImageTexture\<close> come
  from the texture's format, which is not part of the sources; the recorded call keeps the
  unit and the texture. \<open>Texture::_prepareForBinding\<close> is a call to a collaborator.
\<close>

definition assertCorrectImageUnit :: "'m env \<Rightarrow> uint8 \<Rightarrow> ('p, 'm) InternalData \<Rightarrow> unit outcome \<times> ('p, 'm) InternalData" where
  "assertCorrectImageUnit env unit s =
     (if unat unit \<ge> MAX_BOUND_IMAGES env
      then (Throws (Std (runtime_error ''RenderingContext: Invalid image unit.'')), s)
      else (Returns (), s))"

definition getBoundImage :: "'m env \<Rightarrow> uint8 \<Rightarrow> ('p, 'm) InternalData \<Rightarrow> ImageBindParameters outcome \<times> ('p, 'm) InternalData" where
  "getBoundImage env unit =
     andThen (assertCorrectImageUnit env unit) (\<lambda>s. (Returns (boundImages s (unat unit)), s))"

definition pushBoundImage :: "'m env \<Rightarrow> uint8 \<Rightarrow> ('p, 'm) InternalData \<Rightarrow> unit outcome \<times> ('p, 'm) InternalData" where
  "pushBoundImage env unit =
     andThen (assertCorrectImageUnit env unit)
       (returns (\<lambda>s. s\<lparr>imageStacks := (imageStacks s)
                   (unat unit := boundImages s (unat unit) # imageStacks s (unat unit))\<rparr>))"

definition setBoundImage :: "'m env \<Rightarrow> uint8 \<Rightarrow> ImageBindParameters \<Rightarrow> ('p, 'm) InternalData \<Rightarrow> unit outcome \<times> ('p, 'm) InternalData" where
  "setBoundImage env unit iParam =
     andThen (assertCorrectImageUnit env unit)
    (andThen (returns (\<lambda>s. s\<lparr>boundImages := (boundImages s)(unat unit := iParam)\<rparr>))
       (if isImageBindingSupported env
        then andThen (returns (issue GET_GL_ERROR))
               (if texture iParam \<noteq> nullptr
                then andThen (returns (issue GET_GL_ERROR))
                    (andThen (invoke env (Texture_prepareForBinding (texture iParam)))
                    (andThen (returns (issue (glBindImageTexture unit (texture iParam))))
                             (returns (issue GET_GL_ERROR))))
                else andThen (returns (issue (glBindImageTexture unit 0)))
                             (returns (issue GET_GL_ERROR)))
        else returns (WARN ''RenderingContext::setBoundImage: GL_ARB_shader_image_load_store is not supported by your driver.'')))"

definition pushAndSetBoundImage :: "'m env \<Rightarrow> uint8 \<Rightarrow> ImageBindParameters \<Rightarrow> ('p, 'm) InternalData \<Rightarrow> unit outcome \<times> ('p, 'm) InternalData" where
  "pushAndSetBoundImage env unit iParam =
     andThen (pushBoundImage env unit) (setBoundImage env unit iParam)"

definition popBoundImage :: "'m env \<Rightarrow> uint8 \<Rightarrow> ('p, 'm) InternalData \<Rightarrow> unit outcome \<times> ('p, 'm) InternalData" where
  "popBoundImage env unit =
     andThen (assertCorrectImageUnit env unit)
       (\<lambda>s. case imageStacks s (unat unit) of
               [] \<Rightarrow> (Returns (), WARN ''popBoundImage: Empty stack'' s)
             | saved # rest \<Rightarrow>
                 andThen (setBoundImage env unit saved)
                   (returns (\<lambda>s1. s1\<lparr>imageStacks := (imageStacks s1)(unat unit := rest)\<rparr>)) s)"

subsection \<open>Line\<close>

definition getLineParameters :: "('p, 'm) InternalData \<Rightarrow> 'p" where
  "getLineParameters s = lineParameters (targetPipelineState s)"

definition setLine :: "'p \<Rightarrow> ('p, 'm) InternalData \<Rightarrow> ('p, 'm) InternalData" where
  "setLine p s = s\<lparr>targetPipelineState := (targetPipelineState s)\<lparr>lineParameters := p\<rparr>\<rparr>"

definition pushLine :: "('p, 'm) InternalData \<Rightarrow> ('p, 'm) InternalData" where
  "pushLine s = s\<lparr>lineParameterStack := lineParameters (targetPipelineState s) # lineParameterStack s\<rparr>"

definition pushAndSetLine :: "'p \<Rightarrow> ('p, 'm) InternalData \<Rightarrow> ('p, 'm) InternalData" where
  "pushAndSetLine p s = setLine p (pushLine s)"

definition popLine :: "('p, 'm) InternalData \<Rightarrow> ('p, 'm) InternalData" where
  "popLine s =
     (case lineParameterStack s of
        [] \<Rightarrow> WARN ''popLine: Empty line parameters stack'' s
      | saved # rest \<Rightarrow> (setLine saved s)\<lparr>lineParameterStack := rest\<rparr>)"

subsection \<open>Point\<close>

definition getPointParameters :: "('p, 'm) InternalData \<Rightarrow> 'p" where
  "getPointParameters s = pointSize (activeObjectData s)"

definition setPointParameters :: "'p \<Rightarrow> ('p, 'm) InternalData \<Rightarrow> ('p, 'm) InternalData" where
  "setPointParameters p s = s\<lparr>activeObjectData := (activeObjectData s)\<lparr>pointSize := p\<rparr>\<rparr>"

definition pushPointParameters :: "('p, 'm) InternalData \<Rightarrow> ('p, 'm) InternalData" where
  "pushPointParameters s = s\<lparr>pointParameterStack := pointSize (activeObjectData s) # pointParameterStack s\<rparr>"

definition pushAndSetPointParameters :: "'p \<Rightarrow> ('p, 'm) InternalData \<Rightarrow> ('p, 'm) InternalData" where
  "pushAndSetPointParameters p s = setPointParameters p (pushPointParameters s)"

definition popPointParameters :: "('p, 'm) InternalData \<Rightarrow> ('p, 'm) InternalData" where
  "popPointParameters s =
     (case pointParameterStack s of
        [] \<Rightarrow> WARN ''popPoint: Empty point parameters stack'' s
      | saved # rest \<Rightarrow> (setPointParameters saved s)\<lparr>pointParameterStack := rest\<rparr>)"

subsection \<open>PolygonMode\<close>

definition getPolygonModeParameters :: "('p, 'm) InternalData \<Rightarrow> 'p" where
  "getPolygonModeParameters s = polygonModeParameters (targetPipelineState s)"

definition setPolygonMode :: "'p \<Rightarrow> ('p, 'm) InternalData \<Rightarrow> ('p, 'm) InternalData" where
  "setPolygonMode p s = s\<lparr>targetPipelineState := (targetPipelineState s)\<lparr>polygonModeParameters := p\<rparr>\<rparr>"

definition pushPolygonMode :: "('p, 'm) InternalData \<Rightarrow> ('p, 'm) InternalData" where
  "pushPolygonMode s = s\<lparr>polygonModeParameterStack := polygonModeParameters (targetPipelineState s) # polygonModeParameterStack s\<rparr>"

definition pushAndSetPolygonMode :: "'p \<Rightarrow> ('p, 'm) InternalData \<Rightarrow> ('p, 'm) InternalData" where
  "pushAndSetPolygonMode p s = setPolygonMode p (pushPolygonMode s)"

definition popPolygonMode :: "('p, 'm) InternalData \<Rightarrow> ('p, 'm) InternalData" where
  "popPolygonMode s =
     (case polygonModeParameterStack s of
        [] \<Rightarrow> WARN ''popPolygonMode: Empty PolygonMode-Stack'' s
      | saved # rest \<Rightarrow> (setPolygonMode saved s)\<lparr>polygonModeParameterStack := rest\<rparr>)"

subsection \<open>PolygonOffset\<close>

definition getPolygonOffsetParameters :: "('p, 'm) InternalData \<Rightarrow> 'p" where
  "getPolygonOffsetParameters s = polygonOffsetParameters (targetPipelineState s)"

definition setPolygonOffset :: "'p \<Rightarrow> ('p, 'm) InternalData \<Rightarrow> ('p, 'm) InternalData" where
  "setPolygonOffset p s = s\<lparr>targetPipelineState := (targetPipelineState s)\<lparr>polygonOffsetParameters := p\<rparr>\<rparr>"

definition pushPolygonOffset :: "('p, 'm) InternalData \<Rightarrow> ('p, 'm) InternalData" where
  "pushPolygonOffset s = s\<lparr>polygonOffsetParameterStack := polygonOffsetParameters (targetPipelineState s) # polygonOffsetParameterStack s\<rparr>"

definition pushAndSetPolygonOffset :: "'p \<Rightarrow> ('p, 'm) InternalData \<Rightarrow> ('p, 'm) InternalData" where
  "pushAndSetPolygonOffset p s = setPolygonOffset p (pushPolygonOffset s)"

definition popPolygonOffset :: "('p, 'm) InternalData \<Rightarrow> ('p, 'm) InternalData" where
  "popPolygonOffset s =
     (case polygonOffsetParameterStack s of
        [] \<Rightarrow> WARN ''popPolygonOffset: Empty PolygonOffset stack'' s
      | saved # rest \<Rightarrow> (setPolygonOffset saved s)\<lparr>polygonOffsetParameterStack := rest\<rparr>)"

subsection \<open>Scissor\<close>

definition getScissor :: "('p, 'm) InternalData \<Rightarrow> 'p" where
  "getScissor s = scissorParameters (targetPipelineState s)"

definition setScissor :: "'p \<Rightarrow> ('p, 'm) InternalData \<Rightarrow> ('p, 'm) InternalData" where
  "setScissor p s = s\<lparr>targetPipelineState := (targetPipelineState s)\<lparr>scissorParameters := p\<rparr>\<rparr>"

definition pushScissor :: "('p, 'm) InternalData \<Rightarrow> ('p, 'm) InternalData" where
  "pushScissor s = s\<lparr>scissorParametersStack := scissorParameters (targetPipelineState s) # scissorParametersStack s\<rparr>"

definition pushAndSetScissor :: "'p \<Rightarrow> ('p, 'm) InternalData \<Rightarrow> ('p, 'm) InternalData" where
  "pushAndSetScissor p s = setScissor p (pushScissor s)"

definition popScissor :: "('p, 'm) InternalData \<Rightarrow> ('p, 'm) InternalData" where
  "popScissor s =
     (case scissorParametersStack s of
        [] \<Rightarrow> WARN ''popScissor: Empty scissor parameters stack'' s
      | saved # rest \<Rightarrow> (setScissor saved s)\<lparr>scissorParametersStack := rest\<rparr>)"

subsection \<open>Stencil\<close>

definition getStencilParamters :: "('p, 'm) InternalData \<Rightarrow> 'p" where
  "getStencilParamters s = stencilParameters (targetPipelineState s)"

definition setStencil :: "'p \<Rightarrow> ('p, 'm) InternalData \<Rightarrow> ('p, 'm) InternalData" where
  "setStencil p s = s\<lparr>targetPipelineState := (targetPipelineState s)\<lparr>stencilParameters := p\<rparr>\<rparr>"

definition pushStencil :: "('p, 'm) InternalData \<Rightarrow> ('p, 'm) InternalData" where
  "pushStencil s = s\<lparr>stencilParameterStack := stencilParameters (targetPipelineState s) # stencilParameterStack s\<rparr>"

definition pushAndSetStencil :: "'p \<Rightarrow> ('p, 'm) InternalData \<Rightarrow> ('p, 'm) InternalData" where
  "pushAndSetStencil p s = setStencil p (pushStencil s)"

definition popStencil :: "('p, 'm) InternalData \<Rightarrow> ('p, 'm) InternalData" where
  "popStencil s =
     (case stencilParameterStack s of
        [] \<Rightarrow> WARN ''popStencil: Empty stencil stack'' s
      | saved # rest \<Rightarrow> (setStencil saved s)\<lparr>stencilParameterStack := rest\<rparr>)"

subsection \<open>FBO\<close>

definition getActiveFBO :: "('p, 'm) InternalData \<Rightarrow> ptr" where
  "getActiveFBO s = fbo (targetPipelineState s)"

definition setFBO :: "ptr \<Rightarrow> ('p, 'm) InternalData \<Rightarrow> ('p, 'm) InternalData" where
  "setFBO p s = s\<lparr>targetPipelineState := (targetPipelineState s)\<lparr>fbo := p\<rparr>\<rparr>"

definition pushFBO :: "('p, 'm) InternalData \<Rightarrow> ('p, 'm) InternalData" where
  "pushFBO s = s\<lparr>fboStack := getActiveFBO s # fboStack s\<rparr>"

definition pushAndSetFBO :: "ptr \<Rightarrow> ('p, 'm) InternalData \<Rightarrow> ('p, 'm) InternalData" where
  "pushAndSetFBO p s = setFBO p (pushFBO s)"

definition popFBO :: "('p, 'm) InternalData \<Rightarrow> ('p, 'm) InternalData" where
  "popFBO s =
     (case fboStack s of
        [] \<Rightarrow> WARN ''popFBO: Empty FBO-Stack'' s
      | saved # rest \<Rightarrow> (setFBO saved s)\<lparr>fboStack := rest\<rparr>)"

subsection \<open>Shader\<close>

definition getActiveShader :: "('p, 'm) InternalData \<Rightarrow> ptr" where
  "getActiveShader s = shader (targetPipelineState s)"

definition setShader :: "ptr \<Rightarrow> ('p, 'm) InternalData \<Rightarrow> ('p, 'm) InternalData" where
  "setShader p s = s\<lparr>targetPipelineState := (targetPipelineState s)\<lparr>shader := p\<rparr>\<rparr>"

definition pushShader :: "('p, 'm) InternalData \<Rightarrow> ('p, 'm) InternalData" where
  "pushShader s = s\<lparr>shaderStack := getActiveShader s # shaderStack s\<rparr>"

definition pushAndSetShader :: "ptr \<Rightarrow> ('p, 'm) InternalData \<Rightarrow> ('p, 'm) InternalData" where
  "pushAndSetShader p s = setShader p (pushShader s)"

text \<open>\<open>popShader\<close> ends with the call of \<open>setShader\<close>: the function has no \<open>shaderStack.pop()\<close>.\<close>

definition popShader :: "('p, 'm) InternalData \<Rightarrow> ('p, 'm) InternalData" where
  "popShader s =
     (case shaderStack s of
        [] \<Rightarrow> WARN ''popShader: Empty Shader-Stack'' s
      | saved # rest \<Rightarrow> setShader saved s)"

subsection \<open>Textures\<close>

definition getTexture :: "'m env \<Rightarrow> uint8 \<Rightarrow> ('p, 'm) InternalData \<Rightarrow> ptr" where
  "getTexture env unit s =
     (if unat unit < MAX_TEXTURES env then textures (targetPipelineState s) (unat unit) else nullptr)"

text \<open>\<open>std::array::at\<close> on an array of \<open>MAX_TEXTURES\<close> elements.\<close>

definition at_MAX_TEXTURES :: "'m env \<Rightarrow> uint8 \<Rightarrow> ('p, 'm) InternalData \<Rightarrow> unit outcome \<times> ('p, 'm) InternalData" where
  "at_MAX_TEXTURES env unit s =
     (if unat unit \<ge> MAX_TEXTURES env then (Throws (Std (out_of_range ''array::at'')), s)
      else (Returns (), s))"

definition pushTexture :: "'m env \<Rightarrow> uint8 \<Rightarrow> ('p, 'm) InternalData \<Rightarrow> unit outcome \<times> ('p, 'm) InternalData" where
  "pushTexture env unit =
     andThen (at_MAX_TEXTURES env unit)
       (returns (\<lambda>s. s\<lparr>textureStacks := (textureStacks s)
                   (unat unit := getTexture env unit s # textureStacks s (unat unit))\<rparr>))"

definition setTexture :: "'m env \<Rightarrow> uint8 \<Rightarrow> ptr \<Rightarrow> ('p, 'm) InternalData \<Rightarrow> unit outcome \<times> ('p, 'm) InternalData" where
  "setTexture env unit tex =
     andThen
       (\<lambda>s. if tex \<noteq> getTexture env unit s
             then andThen
                    (if tex \<noteq> nullptr then invoke env (Texture_prepareForBinding tex)
                     else returns (\<lambda>s. s))
                    (returns (\<lambda>s. s\<lparr>targetPipelineState := (targetPipelineState s)
                       \<lparr>textures := (textures (targetPipelineState s))(unat unit := tex)\<rparr>\<rparr>)) s
             else (Returns (), s))
    (andThen (at_MAX_TEXTURES env unit)
       (returns (\<lambda>s. s\<lparr>enabledTextures := (enabledTextures s)
                   (unat unit := (if tex \<noteq> nullptr then 1 else 0))\<rparr>)))"

definition pushAndSetTexture :: "'m env \<Rightarrow> uint8 \<Rightarrow> ptr \<Rightarrow> ('p, 'm) InternalData \<Rightarrow> unit outcome \<times> ('p, 'm) InternalData" where
  "pushAndSetTexture env unit tex = andThen (pushTexture env unit) (setTexture env unit tex)"

definition popTexture :: "'m env \<Rightarrow> uint8 \<Rightarrow> ('p, 'm) InternalData \<Rightarrow> unit outcome \<times> ('p, 'm) InternalData" where
  "popTexture env unit =
     andThen (at_MAX_TEXTURES env unit)
       (\<lambda>s. case textureStacks s (unat unit) of
               [] \<Rightarrow> (Returns (), WARN ''popTexture: Empty Texture-Stack'' s)
             | saved # rest \<Rightarrow>
                 andThen (setTexture env unit saved)
                   (returns (\<lambda>s1. s1\<lparr>textureStacks := (textureStacks s1)(unat unit := rest)\<rparr>)) s)"

subsection \<open>Projection matrix\<close>

definition getMatrix_cameraToClipping :: "('p, 'm) InternalData \<Rightarrow> 'm" where
  "getMatrix_cameraToClipping s = matrix_cameraToClipping (activeFrameData s)"

definition setMatrix_cameraToClipping :: "'m env \<Rightarrow> 'm \<Rightarrow> ('p, 'm) InternalData \<Rightarrow> ('p, 'm) InternalData" where
  "setMatrix_cameraToClipping env matrix s =
     s\<lparr>activeFrameData := (activeFrameData s)
         \<lparr>matrix_cameraToClipping := matrix,
          matrix_clippingToCamera := matrix_inverse env matrix\<rparr>\<rparr>"

definition pushMatrix_cameraToClipping :: "('p, 'm) InternalData \<Rightarrow> ('p, 'm) InternalData" where
  "pushMatrix_cameraToClipping s =
     s\<lparr>projectionMatrixStack := matrix_cameraToClipping (activeFrameData s) # projectionMatrixStack s\<rparr>"

definition pushAndSetMatrix_cameraToClipping :: "'m env \<Rightarrow> 'm \<Rightarrow> ('p, 'm) InternalData \<Rightarrow> ('p, 'm) InternalData" where
  "pushAndSetMatrix_cameraToClipping env matrix s =
     setMatrix_cameraToClipping env matrix (pushMatrix_cameraToClipping s)"

text \<open>\<open>popMatrix_cameraToClipping\<close> assigns the one matrix, not its inverse.\<close>

definition popMatrix_cameraToClipping :: "('p, 'm) InternalData \<Rightarrow> ('p, 'm) InternalData" where
  "popMatrix_cameraToClipping s =
     (case projectionMatrixStack s of
        [] \<Rightarrow> WARN ''Cannot pop projection matrix. The stack is empty.'' s
      | saved # rest \<Rightarrow>
          s\<lparr>activeFrameData := (activeFrameData s)\<lparr>matrix_cameraToClipping := saved\<rparr>,
            projectionMatrixStack := rest\<rparr>)"

subsection \<open>Model view matrix\<close>

definition getMatrix_modelToCamera :: "('p, 'm) InternalData \<Rightarrow> 'm" where
  "getMatrix_modelToCamera s = matrix_modelToCamera (activeObjectData s)"

definition setMatrix_modelToCamera :: "'m \<Rightarrow> ('p, 'm) InternalData \<Rightarrow> ('p, 'm) InternalData" where
  "setMatrix_modelToCamera matrix s =
     s\<lparr>activeObjectData := (activeObjectData s)\<lparr>matrix_modelToCamera := matrix\<rparr>\<rparr>"

definition pushMatrix_modelToCamera :: "('p, 'm) InternalData \<Rightarrow> ('p, 'm) InternalData" where
  "pushMatrix_modelToCamera s =
     s\<lparr>matrixStack := matrix_modelToCamera (activeObjectData s) # matrixStack s\<rparr>"

definition pushAndSetMatrix_modelToCamera :: "'m \<Rightarrow> ('p, 'm) InternalData \<Rightarrow> ('p, 'm) InternalData" where
  "pushAndSetMatrix_modelToCamera matrix s =
     setMatrix_modelToCamera matrix (pushMatrix_modelToCamera s)"

definition popMatrix_modelToCamera :: "('p, 'm) InternalData \<Rightarrow> ('p, 'm) InternalData" where
  "popMatrix_modelToCamera s =
     (case matrixStack s of
        [] \<Rightarrow> WARN ''Cannot pop matrix. The stack is empty.'' s
      | saved # rest \<Rightarrow>
          s\<lparr>activeObjectData := (activeObjectData s)\<lparr>matrix_modelToCamera := saved\<rparr>,
            matrixStack := rest\<rparr>)"

subsection \<open>Material\<close>

definition getMaterial :: "('p, 'm) InternalData \<Rightarrow> 'p" where
  "getMaterial s = mat (activeMaterial s)"

definition setMaterial :: "'p \<Rightarrow> ('p, 'm) InternalData \<Rightarrow> ('p, 'm) InternalData" where
  "setMaterial material s = s\<lparr>activeMaterial := MaterialData_of material\<rparr>"

definition pushMaterial :: "('p, 'm) InternalData \<Rightarrow> ('p, 'm) InternalData" where
  "pushMaterial s = s\<lparr>materialStack := activeMaterial s # materialStack s\<rparr>"

definition pushAndSetMaterial :: "'p \<Rightarrow> ('p, 'm) InternalData \<Rightarrow> ('p, 'm) InternalData" where
  "pushAndSetMaterial material s = setMaterial material (pushMaterial s)"

text \<open>
  \<open>popMaterial\<close> pops first. With nothing left on the stack it clears \<open>enabled\<close> of the
  active material, otherwise it assigns the element that is now on top.
\<close>

definition popMaterial :: "('p, 'm) InternalData \<Rightarrow> ('p, 'm) InternalData" where
  "popMaterial s =
     (case materialStack s of
        [] \<Rightarrow> WARN ''RenderingContext.popMaterial: stack empty, ignoring call'' s
      | saved # rest \<Rightarrow>
          (case rest of
             [] \<Rightarrow> s\<lparr>materialStack := rest, activeMaterial := (activeMaterial s)\<lparr>enabled := 0\<rparr>\<rparr>
           | below # others \<Rightarrow> s\<lparr>materialStack := rest, activeMaterial := below\<rparr>))"

subsection \<open>Viewport\<close>

definition getViewport :: "('p, 'm) InternalData \<Rightarrow> Rect_i" where
  "getViewport s = viewport (targetPipelineState s)"

definition setViewport :: "Rect_i \<Rightarrow> ('p, 'm) InternalData \<Rightarrow> ('p, 'm) InternalData" where
  "setViewport vp s =
     s\<lparr>targetPipelineState := (targetPipelineState s)\<lparr>viewport := vp\<rparr>,
       activeFrameData := (activeFrameData s)\<lparr>fd_viewport := vp\<rparr>\<rparr>"

definition pushViewport :: "('p, 'm) InternalData \<Rightarrow> ('p, 'm) InternalData" where
  "pushViewport s = s\<lparr>viewportStack := getViewport s # viewportStack s\<rparr>"

definition pushAndSetViewport :: "Rect_i \<Rightarrow> ('p, 'm) InternalData \<Rightarrow> ('p, 'm) InternalData" where
  "pushAndSetViewport vp s = setViewport vp (pushViewport s)"

definition popViewport :: "('p, 'm) InternalData \<Rightarrow> ('p, 'm) InternalData" where
  "popViewport s =
     (case viewportStack s of
        [] \<Rightarrow> WARN ''Cannot pop viewport stack because it is empty. Ignoring call.'' s
      | saved # rest \<Rightarrow> (setViewport saved s)\<lparr>viewportStack := rest\<rparr>)"

section \<open>The state categories, uniformly\<close>

text \<open>
  The categories that have a stack, one per group of functions above; a bound image and
  a texture have one stack per unit. The transform-feedback status and the
  atomic-counter stacks are left out: the first is restored by restarting transform
  feedback on the device, the second has no function that uses it.
\<close>

datatype cat =
    Blending | ColorBuffer | CullFace | DepthBuffer | BoundImage uint8 | Line | Point
  | PolygonMode | PolygonOffset | Scissor | Stencil | FBO | Shader | Texture uint8
  | Matrix_cameraToClipping | Matrix_modelToCamera | Material | Viewport

text \<open>The values the categories hold, by class.\<close>

datatype ('p, 'm) val =
    Parameters 'p
  | Image ImageBindParameters
  | Pointer ptr
  | Matrix 'm
  | Rect Rect_i
  | MaterialValue "'p MaterialData"

text \<open>
  The target value of a category: what its \<open>get\<close> function returns; for the material the
  whole active \<open>MaterialData\<close>, the parameters and the \<open>enabled\<close> flag.
\<close>

fun target_of :: "'m env \<Rightarrow> cat \<Rightarrow> ('p, 'm) InternalData \<Rightarrow> ('p, 'm) val" where
  "target_of env Blending s = Parameters (getBlendingParameters s)"
| "target_of env ColorBuffer s = Parameters (getColorBufferParameters s)"
| "target_of env CullFace s = Parameters (getCullFaceParameters s)"
| "target_of env DepthBuffer s = Parameters (getDepthBufferParameters s)"
| "target_of env (BoundImage unit) s = Image (boundImages s (unat unit))"
| "target_of env Line s = Parameters (getLineParameters s)"
| "target_of env Point s = Parameters (getPointParameters s)"
| "target_of env PolygonMode s = Parameters (getPolygonModeParameters s)"
| "target_of env PolygonOffset s = Parameters (getPolygonOffsetParameters s)"
| "target_of env Scissor s = Parameters (getScissor s)"
| "target_of env Stencil s = Parameters (getStencilParamters s)"
| "target_of env FBO s = Pointer (getActiveFBO s)"
| "target_of env Shader s = Pointer (getActiveShader s)"
| "target_of env (Texture unit) s = Pointer (getTexture env unit s)"
| "target_of env Matrix_cameraToClipping s = Matrix (getMatrix_cameraToClipping s)"
| "target_of env Matrix_modelToCamera s = Matrix (getMatrix_modelToCamera s)"
| "target_of env Material s = MaterialValue (activeMaterial s)"
| "target_of env Viewport s = Rect (getViewport s)"

fun stack_of :: "cat \<Rightarrow> ('p, 'm) InternalData \<Rightarrow> ('p, 'm) val list" where
  "stack_of Blending s = map Parameters (blendingParameterStack s)"
| "stack_of ColorBuffer s = map Parameters (colorBufferParameterStack s)"
| "stack_of CullFace s = map Parameters (cullFaceParameterStack s)"
| "stack_of DepthBuffer s = map Parameters (depthBufferParameterStack s)"
| "stack_of (BoundImage unit) s = map Image (imageStacks s (unat unit))"
| "stack_of Line s = map Parameters (lineParameterStack s)"
| "stack_of Point s = map Parameters (pointParameterStack s)"
| "stack_of PolygonMode s = map Parameters (polygonModeParameterStack s)"
| "stack_of PolygonOffset s = map Parameters (polygonOffsetParameterStack s)"
| "stack_of Scissor s = map Parameters (scissorParametersStack s)"
| "stack_of Stencil s = map Parameters (stencilParameterStack s)"
| "stack_of FBO s = map Pointer (fboStack s)"
| "stack_of Shader s = map Pointer (shaderStack s)"
| "stack_of (Texture unit) s = map Pointer (textureStacks s (unat unit))"
| "stack_of Matrix_cameraToClipping s = map Matrix (projectionMatrixStack s)"
| "stack_of Matrix_modelToCamera s = map Matrix (matrixStack s)"
| "stack_of Material s = map MaterialValue (materialStack s)"
| "stack_of Viewport s = map Rect (viewportStack s)"

text \<open>A unit that the array of its category has.\<close>

fun cat_valid :: "'m env \<Rightarrow> cat \<Rightarrow> bool" where
  "cat_valid env (BoundImage unit) = (unat unit < MAX_BOUND_IMAGES env)"
| "cat_valid env (Texture unit) = (unat unit < MAX_TEXTURES env)"
| "cat_valid env c = True"

fun push :: "'m env \<Rightarrow> cat \<Rightarrow> ('p, 'm) InternalData \<Rightarrow> unit outcome \<times> ('p, 'm) InternalData" where
  "push env Blending = returns pushBlending"
| "push env ColorBuffer = returns pushColorBuffer"
| "push env CullFace = returns pushCullFace"
| "push env DepthBuffer = returns pushDepthBuffer"
| "push env (BoundImage unit) = pushBoundImage env unit"
| "push env Line = returns pushLine"
| "push env Point = returns pushPointParameters"
| "push env PolygonMode = returns pushPolygonMode"
| "push env PolygonOffset = returns pushPolygonOffset"
| "push env Scissor = returns pushScissor"
| "push env Stencil = returns pushStencil"
| "push env FBO = returns pushFBO"
| "push env Shader = returns pushShader"
| "push env (Texture unit) = pushTexture env unit"
| "push env Matrix_cameraToClipping = returns pushMatrix_cameraToClipping"
| "push env Matrix_modelToCamera = returns pushMatrix_modelToCamera"
| "push env Material = returns pushMaterial"
| "push env Viewport = returns pushViewport"

fun pop :: "'m env \<Rightarrow> cat \<Rightarrow> ('p, 'm) InternalData \<Rightarrow> unit outcome \<times> ('p, 'm) InternalData" where
  "pop env Blending = returns popBlending"
| "pop env ColorBuffer = returns popColorBuffer"
| "pop env CullFace = returns popCullFace"
| "pop env DepthBuffer = returns popDepthBuffer"
| "pop env (BoundImage unit) = popBoundImage env unit"
| "pop env Line = returns popLine"
| "pop env Point = returns popPointParameters"
| "pop env PolygonMode = returns popPolygonMode"
| "pop env PolygonOffset = returns popPolygonOffset"
| "pop env Scissor = returns popScissor"
| "pop env Stencil = returns popStencil"
| "pop env FBO = returns popFBO"
| "pop env Shader = returns popShader"
| "pop env (Texture unit) = popTexture env unit"
| "pop env Matrix_cameraToClipping = returns popMatrix_cameraToClipping"
| "pop env Matrix_modelToCamera = returns popMatrix_modelToCamera"
| "pop env Material = returns popMaterial"
| "pop env Viewport = returns popViewport"

text \<open>
  \<open>set\<close> of a category with a value of its class; a value of another class is not an
  argument the setter can be called with, and is given no effect.
\<close>

definition set_value :: "'m env \<Rightarrow> cat \<Rightarrow> ('p, 'm) val \<Rightarrow> ('p, 'm) InternalData \<Rightarrow> unit outcome \<times> ('p, 'm) InternalData" where
  "set_value env c v =
     (case v of
        Parameters p \<Rightarrow>
          (case c of
             Blending \<Rightarrow> returns (setBlending p)
           | ColorBuffer \<Rightarrow> returns (setColorBuffer p)
           | CullFace \<Rightarrow> returns (setCullFace p)
           | DepthBuffer \<Rightarrow> returns (setDepthBuffer p)
           | Line \<Rightarrow> returns (setLine p)
           | Point \<Rightarrow> returns (setPointParameters p)
           | PolygonMode \<Rightarrow> returns (setPolygonMode p)
           | PolygonOffset \<Rightarrow> returns (setPolygonOffset p)
           | Scissor \<Rightarrow> returns (setScissor p)
           | Stencil \<Rightarrow> returns (setStencil p)
           | Material \<Rightarrow> returns (setMaterial p)
           | _ \<Rightarrow> returns (\<lambda>s. s))
      | Image iParam \<Rightarrow>
          (case c of BoundImage unit \<Rightarrow> setBoundImage env unit iParam | _ \<Rightarrow> returns (\<lambda>s. s))
      | Pointer p \<Rightarrow>
          (case c of
             FBO \<Rightarrow> returns (setFBO p)
           | Shader \<Rightarrow> returns (setShader p)
           | Texture unit \<Rightarrow> setTexture env unit p
           | _ \<Rightarrow> returns (\<lambda>s. s))
      | Matrix m \<Rightarrow>
          (case c of
             Matrix_cameraToClipping \<Rightarrow> returns (setMatrix_cameraToClipping env m)
           | Matrix_modelToCamera \<Rightarrow> returns (setMatrix_modelToCamera m)
           | _ \<Rightarrow> returns (\<lambda>s. s))
      | Rect r \<Rightarrow> (case c of Viewport \<Rightarrow> returns (setViewport r) | _ \<Rightarrow> returns (\<lambda>s. s))
      | MaterialValue d \<Rightarrow> returns (\<lambda>s. s))"

text \<open>The calls of the scoped interface, and sequences of them run until one throws.\<close>

datatype ('p, 'm) op = Push cat | Set cat "('p, 'm) val" | Pop cat

fun category :: "('p, 'm) op \<Rightarrow> cat" where
  "category (Push c) = c"
| "category (Set c v) = c"
| "category (Pop c) = c"

fun exec :: "'m env \<Rightarrow> ('p, 'm) op \<Rightarrow> ('p, 'm) InternalData \<Rightarrow> unit outcome \<times> ('p, 'm) InternalData" where
  "exec env (Push c) = push env c"
| "exec env (Set c v) = set_value env c v"
| "exec env (Pop c) = pop env c"

fun run :: "'m env \<Rightarrow> ('p, 'm) op list \<Rightarrow> ('p, 'm) InternalData \<Rightarrow> unit outcome \<times> ('p, 'm) InternalData" where
  "run env [] = returns (\<lambda>s. s)"
| "run env (x # xs) = andThen (exec env x) (run env xs)"


section \<open>Applying changes and drawing\<close>

definition PARAMETER_FRAMEDATA :: string where
  "PARAMETER_FRAMEDATA = ''FrameData''"

definition PARAMETER_OBJECTDATA :: string where
  "PARAMETER_OBJECTDATA = ''ObjectData''"

definition PARAMETER_MATERIALDATA :: string where
  "PARAMETER_MATERIALDATA = ''MaterialData''"

definition PARAMETER_LIGHTSETDATA :: string where
  "PARAMETER_LIGHTSETDATA = ''LightSetData''"

definition PARAMETER_TEXTURESETDATA :: string where
  "PARAMETER_TEXTURESETDATA = ''TextureSetData''"

text \<open>
  Modelled from the spec: \<open>ParameterCache::isCache\<close>, true of the names of the slots that
  the constructor declares, and \<open>PipelineState::isShaderValid\<close>, true when a shader is
  bound.
\<close>

definition isCache :: "string \<Rightarrow> bool" where
  "isCache name \<longleftrightarrow>
     name \<in> {PARAMETER_FRAMEDATA, PARAMETER_OBJECTDATA, PARAMETER_MATERIALDATA,
             PARAMETER_LIGHTDATA, PARAMETER_LIGHTSETDATA, PARAMETER_TEXTURESETDATA}"

definition isShaderValid :: "'p PipelineState \<Rightarrow> bool" where
  "isShaderValid ps \<longleftrightarrow> shader ps \<noteq> nullptr"

text \<open>
  \<open>try { body } catch(const std::exception & e) { handler }\<close>: the handler takes an
  exception derived from \<open>std::exception\<close>; an object of another class is not caught and
  leaves the block.
\<close>

definition try_catch :: "(('p, 'm) InternalData \<Rightarrow> unit outcome \<times> ('p, 'm) InternalData) \<Rightarrow>
    (std_exception \<Rightarrow> ('p, 'm) InternalData \<Rightarrow> unit outcome \<times> ('p, 'm) InternalData) \<Rightarrow>
    ('p, 'm) InternalData \<Rightarrow> unit outcome \<times> ('p, 'm) InternalData" where
  "try_catch body handler s =
     (case body s of
        (Returns u, s1) \<Rightarrow> (Returns u, s1)
      | (Throws (Std e), s1) \<Rightarrow> handler e s1
      | (Throws (Foreign n), s1) \<Rightarrow> (Throws (Foreign n), s1))"

text \<open>
  The loop of \<open>applyChanges\<close> over the interface blocks of the shader: a block with a
  location that names a slot of the cache is bound.
\<close>

fun bindInterfaceBlocks :: "'m env \<Rightarrow> bool \<Rightarrow> (string \<times> int \<times> uint32) list \<Rightarrow>
    ('p, 'm) InternalData \<Rightarrow> unit outcome \<times> ('p, 'm) InternalData" where
  "bindInterfaceBlocks env forced [] = returns (\<lambda>s. s)"
| "bindInterfaceBlocks env forced ((name, location, target) # blocks) =
     andThen
       (if location \<ge> 0 \<and> isCache name
        then invoke env (ParameterCache_bind name location target forced)
        else returns (\<lambda>s. s))
       (bindInterfaceBlocks env forced blocks)"

text \<open>The block of \<open>applyChanges\<close> inside \<open>try\<close>.\<close>

definition applyChanges_body :: "'m env \<Rightarrow> bool \<Rightarrow> ('p, 'm) InternalData \<Rightarrow> unit outcome \<times> ('p, 'm) InternalData" where
  "applyChanges_body env forced =
     andThen (invoke env (PipelineState_makeDiff forced))
    (andThen (returns (\<lambda>s. s\<lparr>activePipelineState := targetPipelineState s\<rparr>))
    (andThen (invoke env PipelineState_apply)
    (andThen (invoke env (ParameterCache_setParameter PARAMETER_FRAMEDATA 0))
    (andThen (returns (\<lambda>s. s\<lparr>cache := (cache s)\<lparr>FrameData_slot := Some (activeFrameData s)\<rparr>\<rparr>))
    (andThen (invoke env (ParameterCache_setParameter PARAMETER_MATERIALDATA 0))
    (andThen (returns (\<lambda>s. s\<lparr>cache := (cache s)\<lparr>MaterialData_slot := Some (activeMaterial s)\<rparr>\<rparr>))
    (andThen (invoke env (ParameterCache_setParameter PARAMETER_LIGHTSETDATA 0))
    (andThen (returns (\<lambda>s. s\<lparr>cache := (cache s)\<lparr>LightSetData_slot := Some (activeLightSet s)\<rparr>\<rparr>))
    (andThen (invoke env (ParameterCache_setParameter PARAMETER_TEXTURESETDATA 0))
    (andThen (returns (\<lambda>s. s\<lparr>cache := (cache s)\<lparr>TextureSetData_slot := Some (enabledTextures s)\<rparr>\<rparr>))
       (\<lambda>s. if isShaderValid (activePipelineState s)
             then andThen (bindInterfaceBlocks env forced
                             (getInterfaceBlocks env (shader (activePipelineState s))))
                 (andThen (invoke env UniformRegistry_performGlobalSync)
                 (andThen (invoke env (Shader_applyUniforms forced))
                          (returns (issue GET_GL_ERROR)))) s
             else (Returns (), s))))))))))))"

text \<open>The handler of \<open>applyChanges\<close>.\<close>

definition applyChanges_handler :: "std_exception \<Rightarrow> ('p, 'm) InternalData \<Rightarrow> unit outcome \<times> ('p, 'm) InternalData" where
  "applyChanges_handler e =
     returns (WARN (''Problem detected while setting rendering internalData: '' @ what e))"

definition applyChanges :: "'m env \<Rightarrow> bool \<Rightarrow> ('p, 'm) InternalData \<Rightarrow> unit outcome \<times> ('p, 'm) InternalData" where
  "applyChanges env forced =
     andThen (try_catch (applyChanges_body env forced) applyChanges_handler)
       (returns (issue GET_GL_ERROR))"









section \<open>Mesh vertex data\<close>

subsection \<open>Floats\<close>

text \<open>
  A \<open>float\<close>, as far as \<open>updateBoundingBox\<close> uses it: the function copies and compares
  values and computes nothing with them. A finite value is the real number it stands for;
  the comparison is the one of IEEE 754, false whenever an operand is not a number.
\<close>

datatype float32 = Finite real | PlusInfinity | MinusInfinity | NaN

fun float_less :: "float32 \<Rightarrow> float32 \<Rightarrow> bool" where
  "float_less NaN b = False"
| "float_less a NaN = False"
| "float_less (Finite a) (Finite b) = (a < b)"
| "float_less (Finite a) PlusInfinity = True"
| "float_less (Finite a) MinusInfinity = False"
| "float_less PlusInfinity b = False"
| "float_less MinusInfinity MinusInfinity = False"
| "float_less MinusInfinity b = True"

text \<open>
  \<open>std::numeric_limits<float>::max()\<close>, that is \<open>(2 - 2\<^sup>-\<^sup>2\<^sup>3) * 2\<^sup>1\<^sup>2\<^sup>7\<close>, and
  \<open>std::numeric_limits<float>::lowest()\<close>, its negative.
\<close>

definition FLT_MAX :: real where
  "FLT_MAX = 340282346638528859811704183484516925440"

definition float_max :: float32 where
  "float_max = Finite FLT_MAX"

definition float_lowest :: float32 where
  "float_lowest = Finite (- FLT_MAX)"

text \<open>A value that is a number and not an infinity, and the real number it stands for.\<close>

fun is_finite :: "float32 \<Rightarrow> bool" where
  "is_finite (Finite r) = (- FLT_MAX \<le> r \<and> r \<le> FLT_MAX)"
| "is_finite v = False"

fun float_value :: "float32 \<Rightarrow> real" where
  "float_value (Finite r) = r"
| "float_value v = 0"

subsection \<open>The classes\<close>

text \<open>
  \<open>Geometry::Box\<close> belongs to another library: the six bounds in the order of the
  constructor \<open>Box(minx, maxx, miny, maxy, minz, maxz)\<close>; the default constructor gives the
  box with all bounds 0.
\<close>

record Box =
  minX :: float32
  maxX :: float32
  minY :: float32
  maxY :: float32
  minZ :: float32
  maxZ :: float32

definition Box_default :: Box where
  "Box_default = \<lparr>minX = Finite 0, maxX = Finite 0, minY = Finite 0, maxY = Finite 0,
                   minZ = Finite 0, maxZ = Finite 0\<rparr>"

text \<open>
  Modelled from the spec: \<open>BufferObject\<close> (BufferObject.h is not part of the sources), the
  device buffer: whether it exists, and the bytes it holds. \<open>destroy\<close> releases it,
  \<open>uploadData\<close> creates it with the bytes given, or throws.
\<close>

record BufferObject =
  isValid :: bool
  deviceData :: "uint8 list"

definition BufferObject_default :: BufferObject where
  "BufferObject_default = \<lparr>isValid = False, deviceData = []\<rparr>"

definition destroy :: "BufferObject \<Rightarrow> BufferObject" where
  "destroy b = \<lparr>isValid = False, deviceData = []\<rparr>"

text \<open>
  \<open>VertexDescription\<close>, as far as the functions below read it: the size of a vertex in
  bytes and the number of values of the position attribute.
\<close>

record VertexDescription =
  getVertexSize :: nat
  positionNumValues :: uint8

definition VertexDescription_default :: VertexDescription where
  "VertexDescription_default = \<lparr>getVertexSize = 0, positionNumValues = 0\<rparr>"

record MeshVertexData =
  binaryData :: "uint8 list"
  vertexDescription :: VertexDescription
  vertexCount :: uint32
  bufferObject :: BufferObject
  bb :: Box
  dataChanged :: bool

text \<open>The constructor \<open>MeshVertexData()\<close>.\<close>

definition MeshVertexData_ctor :: MeshVertexData where
  "MeshVertexData_ctor =
     \<lparr>binaryData = [], vertexDescription = VertexDescription_default, vertexCount = 0,
      bufferObject = BufferObject_default, bb = Box_default, dataChanged = False\<rparr>"

text \<open>\<open>MeshVertexData::empty\<close>.\<close>

definition empty_vd :: "MeshVertexData \<Rightarrow> bool" where
  "empty_vd vd \<longleftrightarrow> vertexCount vd = 0"

definition hasChanged :: "MeshVertexData \<Rightarrow> bool" where
  "hasChanged vd = dataChanged vd"

definition hasLocalData :: "MeshVertexData \<Rightarrow> bool" where
  "hasLocalData vd \<longleftrightarrow> binaryData vd \<noteq> []"

definition isUploaded :: "MeshVertexData \<Rightarrow> bool" where
  "isUploaded vd = isValid (bufferObject vd)"

definition markAsChanged :: "MeshVertexData \<Rightarrow> MeshVertexData" where
  "markAsChanged vd = vd\<lparr>dataChanged := True\<rparr>"

text \<open>\<open>std::vector::resize\<close>: the first \<open>n\<close> elements, zeros where there were none.\<close>

definition resize :: "nat \<Rightarrow> uint8 list \<Rightarrow> uint8 list" where
  "resize n xs = take n xs @ replicate (n - length xs) 0"

definition allocate :: "uint32 \<Rightarrow> VertexDescription \<Rightarrow> MeshVertexData \<Rightarrow> MeshVertexData" where
  "allocate cnt vd d =
     markAsChanged
       (d\<lparr>vertexDescription := vd, vertexCount := cnt,
          binaryData := resize (getVertexSize vd * unat cnt) (binaryData d)\<rparr>)"

definition releaseLocalData :: "MeshVertexData \<Rightarrow> MeshVertexData" where
  "releaseLocalData vd = vd\<lparr>binaryData := resize 0 (binaryData vd)\<rparr>"

definition removeGlBuffer :: "MeshVertexData \<Rightarrow> MeshVertexData" where
  "removeGlBuffer vd = vd\<lparr>bufferObject := destroy (bufferObject vd)\<rparr>"

text \<open>
  \<open>upload(usageHint)\<close>, with the value it returns. \<open>uploadThrows\<close> tells whether
  \<open>BufferObject::uploadData\<close> (or the check of the GL error after it) throws for the data
  and the usage hint; the \<open>catch (...)\<close> of the function takes whatever is thrown. The
  warnings of the mesh classes are not part of this model.
\<close>

definition upload :: "(uint8 list \<Rightarrow> uint32 \<Rightarrow> bool) \<Rightarrow> uint32 \<Rightarrow> MeshVertexData \<Rightarrow> bool \<times> MeshVertexData" where
  "upload uploadThrows usageHint vd =
     (if vertexCount vd = 0 \<or> binaryData vd = [] then (False, vd)
      else (let vd1 = (if isUploaded vd then removeGlBuffer vd else vd)
            in if uploadThrows (binaryData vd1) usageHint
               then (False, removeGlBuffer vd1)
               else (True, vd1\<lparr>bufferObject := \<lparr>isValid = True, deviceData = binaryData vd1\<rparr>,
                               dataChanged := False\<rparr>)))"

subsection \<open>The bounding box\<close>

text \<open>
  The two loops of \<open>updateBoundingBox\<close>. \<open>getValues\<close> is the accessor of the position
  attribute (\<open>FloatAttributeAccessor\<close> is not part of the sources): the values of the
  attribute at a vertex.
\<close>

definition updateBoundingBox_dim :: "float32 list \<Rightarrow> nat \<Rightarrow> float32 list \<times> float32 list \<Rightarrow> float32 list \<times> float32 list" where
  "updateBoundingBox_dim p d mm =
     (let mn = (if float_less (p ! d) (fst mm ! d) then (fst mm)[d := p ! d] else fst mm);
          mx = (if float_less (snd mm ! d) (p ! d) then (snd mm)[d := p ! d] else snd mm)
      in (mn, mx))"

definition updateBoundingBox_vertex :: "(nat \<Rightarrow> float32 list) \<Rightarrow> nat \<Rightarrow> nat \<Rightarrow> float32 list \<times> float32 list \<Rightarrow> float32 list \<times> float32 list" where
  "updateBoundingBox_vertex getValues vertexNum i mm =
     fold (updateBoundingBox_dim (getValues i)) [0 ..< vertexNum] mm"

definition updateBoundingBox_minmax :: "(nat \<Rightarrow> float32 list) \<Rightarrow> nat \<Rightarrow> nat \<Rightarrow> float32 list \<times> float32 list" where
  "updateBoundingBox_minmax getValues vertexNum cnt =
     fold (updateBoundingBox_vertex getValues vertexNum) [0 ..< cnt]
       (replicate vertexNum float_max, replicate vertexNum float_lowest)"

definition updateBoundingBox :: "(nat \<Rightarrow> float32 list) \<Rightarrow> MeshVertexData \<Rightarrow> MeshVertexData" where
  "updateBoundingBox getValues vd =
     (if vertexCount vd = 0 then vd\<lparr>bb := Box_default\<rparr>
      else (let vertexNum = unat (positionNumValues (vertexDescription vd))
            in if vertexNum < 1 then vd
               else (let (mn, mx) = updateBoundingBox_minmax getValues vertexNum (unat (vertexCount vd))
                     in if vertexNum = 1
                        then vd\<lparr>bb := \<lparr>minX = mn ! 0, maxX = mx ! 0, minY = Finite 0, maxY = Finite 0,
                                       minZ = Finite 0, maxZ = Finite 0\<rparr>\<rparr>
                        else if vertexNum = 2
                        then vd\<lparr>bb := \<lparr>minX = mn ! 0, maxX = mx ! 0, minY = mn ! 1, maxY = mx ! 1,
                                       minZ = Finite 0, maxZ = Finite 0\<rparr>\<rparr>
                        else vd\<lparr>bb := \<lparr>minX = mn ! 0, maxX = mx ! 0, minY = mn ! 1, maxY = mx ! 1,
                                       minZ = mn ! 2, maxZ = mx ! 2\<rparr>\<rparr>)))"

text \<open>The coordinates number \<open>d\<close> of the first \<open>cnt\<close> vertices, as real numbers.\<close>

definition coordinates :: "(nat \<Rightarrow> float32 list) \<Rightarrow> nat \<Rightarrow> nat \<Rightarrow> real set" where
  "coordinates getValues cnt d = (\<lambda>i. float_value (getValues i ! d)) ` {..<cnt}"

section \<open>The mesh data strategy\<close>

text \<open>
  Modelled from the spec: \<open>MeshIndexData\<close> (MeshIndexData.h is not part of the sources), the
  geometry record of the indices, with the operations of \<open>MeshVertexData\<close>: it is empty
  when its count is 0, and \<open>upload\<close>, \<open>removeGlBuffer\<close> and \<open>releaseLocalData\<close> do to it
  what they do to the vertex data.
\<close>

record MeshIndexData =
  indexArray :: "uint8 list"
  indexCount :: uint32
  indexBufferObject :: BufferObject
  indexDataChanged :: bool

definition MeshIndexData_upload :: "(uint8 list \<Rightarrow> uint32 \<Rightarrow> bool) \<Rightarrow> uint32 \<Rightarrow> MeshIndexData \<Rightarrow> bool \<times> MeshIndexData" where
  "MeshIndexData_upload uploadThrows usageHint d =
     (if indexCount d = 0 \<or> indexArray d = [] then (False, d)
      else (let d1 = (if isValid (indexBufferObject d)
                      then d\<lparr>indexBufferObject := destroy (indexBufferObject d)\<rparr> else d)
            in if uploadThrows (indexArray d1) usageHint
               then (False, d1\<lparr>indexBufferObject := destroy (indexBufferObject d1)\<rparr>)
               else (True, d1\<lparr>indexBufferObject := \<lparr>isValid = True, deviceData = indexArray d1\<rparr>,
                              indexDataChanged := False\<rparr>)))"

record Mesh =
  indexData :: MeshIndexData
  vertexData :: MeshVertexData

text \<open>
  The flags of a \<open>SimpleMeshDataStrategy\<close>, each as \<open>getFlag\<close> reports it, and the usage
  constants of \<open>BufferObject\<close> that \<open>prepare\<close> passes on.
\<close>

record SimpleMeshDataStrategy =
  PRESERVE_LOCAL_DATA :: bool
  DYNAMIC_VERTICES :: bool
  DEBUG_OUTPUT :: bool
  CLIENT_STORAGE :: bool

record BufferObject_flags =
  FLAGS_DYNAMIC :: uint32
  FLAGS_STATIC :: uint32
  FLAG_CLIENT_STORAGE :: uint32

definition GL_STATIC_DRAW :: uint32 where
  "GL_STATIC_DRAW = 0x88E4"

text \<open>
  \<open>SimpleMeshDataStrategy::prepare\<close>: first the index data, then the vertex data. The
  debug output to \<open>std::cout\<close> is not part of this model.
\<close>

definition prepare_indexData :: "SimpleMeshDataStrategy \<Rightarrow> (uint8 list \<Rightarrow> uint32 \<Rightarrow> bool) \<Rightarrow> MeshIndexData \<Rightarrow> MeshIndexData" where
  "prepare_indexData strategy uploadThrows d =
     (let d1 = (if indexCount d = 0 \<and> isValid (indexBufferObject d)
                then d\<lparr>indexBufferObject := destroy (indexBufferObject d)\<rparr>
                else if indexCount d \<noteq> 0 \<and> (indexDataChanged d \<or> \<not> isValid (indexBufferObject d))
                then snd (MeshIndexData_upload uploadThrows GL_STATIC_DRAW d)
                else d)
      in if \<not> PRESERVE_LOCAL_DATA strategy \<and> isValid (indexBufferObject d1) \<and> indexArray d1 \<noteq> []
         then d1\<lparr>indexArray := []\<rparr> else d1)"

definition prepare_vertexData :: "SimpleMeshDataStrategy \<Rightarrow> BufferObject_flags \<Rightarrow> (uint8 list \<Rightarrow> uint32 \<Rightarrow> bool) \<Rightarrow> MeshVertexData \<Rightarrow> MeshVertexData" where
  "prepare_vertexData strategy flags uploadThrows vd =
     (let vd1 = (if empty_vd vd \<and> isUploaded vd then removeGlBuffer vd
                 else if \<not> empty_vd vd \<and> (hasChanged vd \<or> \<not> isUploaded vd)
                 then snd (upload uploadThrows
                        (or (if DYNAMIC_VERTICES strategy then FLAGS_DYNAMIC flags else FLAGS_STATIC flags)
                            (if CLIENT_STORAGE strategy then FLAG_CLIENT_STORAGE flags else 0)) vd)
                 else vd)
      in if \<not> PRESERVE_LOCAL_DATA strategy \<and> isUploaded vd1 \<and> hasLocalData vd1
         then releaseLocalData vd1 else vd1)"

definition prepare :: "SimpleMeshDataStrategy \<Rightarrow> BufferObject_flags \<Rightarrow> (uint8 list \<Rightarrow> uint32 \<Rightarrow> bool) \<Rightarrow> Mesh \<Rightarrow> Mesh" where
  "prepare strategy flags uploadThrows m =
     \<lparr>indexData = prepare_indexData strategy uploadThrows (indexData m),
      vertexData = prepare_vertexData strategy flags uploadThrows (vertexData m)\<rparr>"


section \<open>Example contexts\<close>

text \<open>
  Collaborators that never throw, with eight texture and eight image units; a context as
  constructed, with the parameter classes and the matrices instantiated by natural numbers, and the context after the lights 0 and 1 have been enabled.
\<close>

definition example_env :: "nat env" where
  "example_env =
     \<lparr>MAX_TEXTURES = 8, MAX_BOUND_IMAGES = 8, isImageBindingSupported = True,
      matrix_inverse = (\<lambda>m. m), getInterfaceBlocks = (\<lambda>p. []),
      getGLTypeSize = (\<lambda>t. 4), raises = (\<lambda>history c. None)\<rparr>"

definition fresh_context :: "(nat, nat) InternalData" where
  "fresh_context = RenderingContext_ctor (\<lambda>name. 0) 0"

definition two_lights_enabled :: "(nat, nat) InternalData" where
  "two_lights_enabled = enableLight_id 1 (enableLight_id 0 fresh_context)"


text \<open>255 descriptors, all different.\<close>

definition many_lights :: "LightParameters list" where
  "many_lights = map (\<lambda>i. [of_nat i]) [0 ..< 255]"

text \<open>Collaborators with a pipeline state whose \<open>apply\<close> throws.\<close>

definition failing_env :: "nat env" where
  "failing_env =
     example_env\<lparr>raises := (\<lambda>history c.
        if c = PipelineState_apply then Some (Std (runtime_error ''device lost'')) else None)\<rparr>"

text \<open>
  Collaborators with a pipeline state whose \<open>apply\<close> throws an object of a class that is
  not derived from \<open>std::exception\<close>.
\<close>

definition foreign_env :: "nat env" where
  "foreign_env =
     example_env\<lparr>raises := (\<lambda>history c.
        if c = PipelineState_apply then Some (Foreign 1) else None)\<rparr>"

text \<open>
  A vertex description with positions of three floats only; the vertex data of one such
  vertex after it has been uploaded and then reallocated with no vertices; and a mesh with
  that vertex data and no indices. The strategy is the one with no flag set, and the
  device accepts every upload.
\<close>

definition position_only :: VertexDescription where
  "position_only = \<lparr>getVertexSize = 12, positionNumValues = 3\<rparr>"

definition cleared_vertex_data :: MeshVertexData where
  "cleared_vertex_data =
     allocate 0 position_only
       (snd (upload (\<lambda>bytes hint. False) GL_STATIC_DRAW (allocate 1 position_only MeshVertexData_ctor)))"

definition cleared_mesh :: Mesh where
  "cleared_mesh =
     \<lparr>indexData = \<lparr>indexArray = [], indexCount = 0, indexBufferObject = BufferObject_default,
                    indexDataChanged = False\<rparr>,
      vertexData = cleared_vertex_data\<rparr>"

definition release_local_strategy :: SimpleMeshDataStrategy where
  "release_local_strategy =
     \<lparr>PRESERVE_LOCAL_DATA = False, DYNAMIC_VERTICES = False, DEBUG_OUTPUT = False,
      CLIENT_STORAGE = False\<rparr>"

definition example_flags :: BufferObject_flags where
  "example_flags = \<lparr>FLAGS_DYNAMIC = 1, FLAGS_STATIC = 2, FLAG_CLIENT_STORAGE = 4\<rparr>"

text \<open>
  Three vertices with positions only, at (0,0,0), (1,0,0) and (0,1,0), and the accessor of
  their positions.
\<close>

definition triangle_positions :: "nat \<Rightarrow> float32 list" where
  "triangle_positions i =
     [[Finite 0, Finite 0, Finite 0], [Finite 1, Finite 0, Finite 0], [Finite 0, Finite 1, Finite 0]] ! i"

definition triangle_vertex_data :: MeshVertexData where
  "triangle_vertex_data = allocate 3 position_only MeshVertexData_ctor"

section \<open>Properties of the scoped setters\<close>

lemmas getters =
  getBlendingParameters_def getColorBufferParameters_def getCullFaceParameters_def
  getDepthBufferParameters_def getLineParameters_def getPointParameters_def
  getPolygonModeParameters_def getPolygonOffsetParameters_def getScissor_def
  getStencilParamters_def getActiveFBO_def getActiveShader_def getTexture_def
  getMatrix_cameraToClipping_def getMatrix_modelToCamera_def getViewport_def

lemmas setters =
  setBlending_def setColorBuffer_def setCullFace_def setDepthBuffer_def setLine_def
  setPointParameters_def setPolygonMode_def setPolygonOffset_def setScissor_def
  setStencil_def setFBO_def setShader_def setMatrix_cameraToClipping_def
  setMatrix_modelToCamera_def setMaterial_def setViewport_def

lemmas pushers =
  pushBlending_def pushColorBuffer_def pushCullFace_def pushDepthBuffer_def pushLine_def
  pushPointParameters_def pushPolygonMode_def pushPolygonOffset_def pushScissor_def
  pushStencil_def pushFBO_def pushShader_def pushMatrix_cameraToClipping_def
  pushMatrix_modelToCamera_def pushMaterial_def pushViewport_def

lemmas poppers =
  popBlending_def popColorBuffer_def popCullFace_def popDepthBuffer_def popLine_def
  popPointParameters_def popPolygonMode_def popPolygonOffset_def popScissor_def
  popStencil_def popFBO_def popShader_def popMatrix_cameraToClipping_def
  popMatrix_modelToCamera_def popMaterial_def popViewport_def

lemma snd_returns [simp]: "snd (returns f s) = f s" and fst_returns [simp]: "fst (returns f s) = Returns ()"
  by (simp_all add: returns_def)

lemma andThen_frame:
  "(\<And>s. P (snd (f s)) = P s) \<Longrightarrow> (\<And>s. P (snd (g s)) = P s) \<Longrightarrow> P (snd (andThen f g s)) = P s"
  by (simp add: andThen_def split: prod.splits outcome.splits) (metis snd_conv)

lemma invoke_frame: "P (issue c s) = P s \<Longrightarrow> P (snd (invoke env c s)) = P s"
  by (simp add: invoke_def split: option.splits)

lemma unat_inj [simp]: "unat (a :: uint8) = unat b \<longleftrightarrow> a = b"
  by (simp add: word_unat_eq_iff)

lemma push_frame:
  "d \<noteq> c \<Longrightarrow> target_of env c (snd (push env d s)) = target_of env c s
     \<and> stack_of c (snd (push env d s)) = stack_of c s"
  by (cases d; cases c)
     (simp_all add: getters pushers pushBoundImage_def pushTexture_def andThen_def returns_def
        assertCorrectImageUnit_def at_MAX_TEXTURES_def)

lemma setBoundImage_frame:
  assumes "\<And>i w k (s :: ('p, 'm) InternalData).
     P (s\<lparr>boundImages := (boundImages s)(unat unit := i)\<rparr>) = P s
     \<and> P (s\<lparr>warnings := w\<rparr>) = P s \<and> P (s\<lparr>calls := k\<rparr>) = P s"
  shows "P (snd (setBoundImage env unit iParam s)) = P (s :: ('p, 'm) InternalData)"
  unfolding setBoundImage_def
  by (intro andThen_frame invoke_frame)
     (simp_all add: assertCorrectImageUnit_def issue_def WARN_def assms andThen_frame invoke_frame)

lemma setTexture_frame:
  assumes "\<And>e k t (s :: ('p, 'm) InternalData).
     P (s\<lparr>enabledTextures := e\<rparr>) = P s \<and> P (s\<lparr>calls := k\<rparr>) = P s
     \<and> P (s\<lparr>targetPipelineState := (targetPipelineState s)\<lparr>textures := (textures (targetPipelineState s))(unat unit := t)\<rparr>\<rparr>) = P s"
  shows "P (snd (setTexture env unit tex s)) = P (s :: ('p, 'm) InternalData)"
  unfolding setTexture_def
  by (intro andThen_frame invoke_frame)
     (simp_all add: at_MAX_TEXTURES_def issue_def assms andThen_frame invoke_frame)

lemma set_value_frame:
  "d \<noteq> c \<Longrightarrow> target_of env c (snd (set_value env d v s)) = target_of env c s
     \<and> stack_of c (snd (set_value env d v s)) = stack_of c s"
proof (cases v)
  case (Image iParam)
  assume dc: "d \<noteq> c"
  show ?thesis
  proof (cases d)
    case (BoundImage unit)
    have "(\<lambda>s. (target_of env c s, stack_of c s)) (snd (setBoundImage env unit iParam s))
        = (\<lambda>s. (target_of env c s, stack_of c s)) s"
      using dc BoundImage by (intro setBoundImage_frame) (cases c; simp add: getters)
    then show ?thesis using Image BoundImage by (simp add: set_value_def)
  qed (simp_all add: set_value_def Image)
next
  case (Pointer p)
  assume dc: "d \<noteq> c"
  show ?thesis
  proof (cases d)
    case (Texture unit)
    have "(\<lambda>s. (target_of env c s, stack_of c s)) (snd (setTexture env unit p s))
        = (\<lambda>s. (target_of env c s, stack_of c s)) s"
      using dc Texture by (intro setTexture_frame) (cases c; simp add: getters)
    then show ?thesis using Pointer Texture by (simp add: set_value_def)
  next
    case FBO then show ?thesis using dc Pointer
      by (cases c) (simp_all add: set_value_def getters setters)
  next
    case Shader then show ?thesis using dc Pointer
      by (cases c) (simp_all add: set_value_def getters setters)
  qed (simp_all add: set_value_def Pointer)
qed (cases d; cases c; simp add: set_value_def getters setters MaterialData_of_def)+

lemma set_value_stack:
  "stack_of c (snd (set_value env d v s)) = stack_of c s"
proof (cases v)
  case (Image iParam)
  show ?thesis
  proof (cases d)
    case (BoundImage unit)
    have "stack_of c (snd (setBoundImage env unit iParam s)) = stack_of c s"
      by (intro setBoundImage_frame) (cases c; simp)
    then show ?thesis using Image BoundImage by (simp add: set_value_def)
  qed (simp_all add: set_value_def Image)
next
  case (Pointer p)
  show ?thesis
  proof (cases d)
    case (Texture unit)
    have "stack_of c (snd (setTexture env unit p s)) = stack_of c s"
      by (intro setTexture_frame) (cases c; simp)
    then show ?thesis using Pointer Texture by (simp add: set_value_def)
  next
    case FBO then show ?thesis using Pointer
      by (cases c) (simp_all add: set_value_def setters)
  next
    case Shader then show ?thesis using Pointer
      by (cases c) (simp_all add: set_value_def setters)
  qed (simp_all add: set_value_def Pointer)
qed (cases d; cases c; simp add: set_value_def setters)+


lemma popBoundImage_frame:
  assumes "\<And>i st w k (s :: ('p, 'm) InternalData).
     P (s\<lparr>boundImages := (boundImages s)(unat unit := i)\<rparr>) = P s
     \<and> P (s\<lparr>imageStacks := (imageStacks s)(unat unit := st)\<rparr>) = P s
     \<and> P (s\<lparr>warnings := w\<rparr>) = P s \<and> P (s\<lparr>calls := k\<rparr>) = P s"
  shows "P (snd (popBoundImage env unit s)) = P (s :: ('p, 'm) InternalData)"
  unfolding popBoundImage_def
proof (intro andThen_frame)
  fix s :: "('p, 'm) InternalData"
  show "P (snd (assertCorrectImageUnit env unit s)) = P s"
    by (simp add: assertCorrectImageUnit_def)
  show "P (snd (case imageStacks s (unat unit) of
                  [] \<Rightarrow> (Returns (), WARN ''popBoundImage: Empty stack'' s)
                | saved # rest \<Rightarrow>
                    andThen (setBoundImage env unit saved)
                      (returns (\<lambda>s1. s1\<lparr>imageStacks := (imageStacks s1)(unat unit := rest)\<rparr>)) s)) = P s"
  proof (cases "imageStacks s (unat unit)")
    case Nil then show ?thesis by (simp add: WARN_def assms)
  next
    case (Cons saved rest)
    have "P (snd (andThen (setBoundImage env unit saved)
                      (returns (\<lambda>s1. s1\<lparr>imageStacks := (imageStacks s1)(unat unit := rest)\<rparr>)) s)) = P s"
      by (intro andThen_frame setBoundImage_frame) (simp_all add: assms)
    then show ?thesis using Cons by simp
  qed
qed

lemma popTexture_frame:
  assumes "\<And>e k t st w (s :: ('p, 'm) InternalData).
     P (s\<lparr>enabledTextures := e\<rparr>) = P s \<and> P (s\<lparr>calls := k\<rparr>) = P s
     \<and> P (s\<lparr>warnings := w\<rparr>) = P s
     \<and> P (s\<lparr>textureStacks := (textureStacks s)(unat unit := st)\<rparr>) = P s
     \<and> P (s\<lparr>targetPipelineState := (targetPipelineState s)\<lparr>textures := (textures (targetPipelineState s))(unat unit := t)\<rparr>\<rparr>) = P s"
  shows "P (snd (popTexture env unit s)) = P (s :: ('p, 'm) InternalData)"
  unfolding popTexture_def
proof (intro andThen_frame)
  fix s :: "('p, 'm) InternalData"
  show "P (snd (at_MAX_TEXTURES env unit s)) = P s"
    by (simp add: at_MAX_TEXTURES_def)
  show "P (snd (case textureStacks s (unat unit) of
                  [] \<Rightarrow> (Returns (), WARN ''popTexture: Empty Texture-Stack'' s)
                | saved # rest \<Rightarrow>
                    andThen (setTexture env unit saved)
                      (returns (\<lambda>s1. s1\<lparr>textureStacks := (textureStacks s1)(unat unit := rest)\<rparr>)) s)) = P s"
  proof (cases "textureStacks s (unat unit)")
    case Nil then show ?thesis by (simp add: WARN_def assms)
  next
    case (Cons saved rest)
    have "P (snd (andThen (setTexture env unit saved)
                      (returns (\<lambda>s1. s1\<lparr>textureStacks := (textureStacks s1)(unat unit := rest)\<rparr>)) s)) = P s"
      by (intro andThen_frame setTexture_frame) (simp_all add: assms)
    then show ?thesis using Cons by simp
  qed
qed

lemma pop_frame:
  assumes dc: "d \<noteq> c"
  shows "target_of env c (snd (pop env d s)) = target_of env c s
     \<and> stack_of c (snd (pop env d s)) = stack_of c s"
proof (cases d)
  case (BoundImage unit)
  have "(\<lambda>s. (target_of env c s, stack_of c s)) (snd (popBoundImage env unit s))
        = (\<lambda>s. (target_of env c s, stack_of c s)) s"
    using dc BoundImage by (intro popBoundImage_frame) (cases c; simp add: getters)
  then show ?thesis using BoundImage by simp
next
  case (Texture unit)
  have "(\<lambda>s. (target_of env c s, stack_of c s)) (snd (popTexture env unit s))
        = (\<lambda>s. (target_of env c s, stack_of c s)) s"
    using dc Texture by (intro popTexture_frame) (cases c; simp add: getters)
  then show ?thesis using Texture by simp
qed (use dc in \<open>cases c; simp add: getters setters poppers WARN_def split: list.splits\<close>)+

lemma exec_frame:
  "category x \<noteq> c \<Longrightarrow>
   target_of env c (snd (exec env x s)) = target_of env c s
   \<and> stack_of c (snd (exec env x s)) = stack_of c s"
  by (cases x) (simp_all add: push_frame set_value_frame pop_frame)

lemma run_frame:
  "\<forall>x \<in> set xs. category x \<noteq> c \<Longrightarrow>
   target_of env c (snd (run env xs s)) = target_of env c s
   \<and> stack_of c (snd (run env xs s)) = stack_of c s"
proof (induction xs arbitrary: s)
  case Nil
  show ?case by simp
next
  case (Cons x xs)
  have "(\<lambda>s. (target_of env c s, stack_of c s)) (snd (andThen (exec env x) (run env xs) s))
      = (\<lambda>s. (target_of env c s, stack_of c s)) s"
    using Cons by (intro andThen_frame) (simp_all add: exec_frame)
  then show ?case by simp
qed

lemma andThen_Returns:
  assumes "fst (andThen f g s) = Returns u"
  shows "fst (f s) = Returns ()" and "fst (g (snd (f s))) = Returns u"
    and "snd (andThen f g s) = snd (g (snd (f s)))"
  using assms by (auto simp: andThen_def split: prod.splits outcome.splits)

lemma run_append: "run env (xs @ ys) = andThen (run env xs) (run env ys)"
proof (induction xs)
  case Nil
  show ?case by (rule ext) (simp add: andThen_def returns_def)
next
  case (Cons x xs)
  show ?case
    by (rule ext) (simp add: Cons andThen_def split: prod.splits outcome.splits)
qed

lemma push_spec:
  "fst (push env c s) = Returns () \<Longrightarrow>
   stack_of c (snd (push env c s)) = target_of env c s # stack_of c s
   \<and> target_of env c (snd (push env c s)) = target_of env c s"
  by (cases c)
     (simp_all add: getters pushers pushBoundImage_def pushTexture_def andThen_def returns_def
        assertCorrectImageUnit_def at_MAX_TEXTURES_def split: if_splits)

lemma setBoundImage_Returns:
  "fst (setBoundImage env unit iParam s) = Returns () \<Longrightarrow>
   boundImages (snd (setBoundImage env unit iParam s)) (unat unit) = iParam
   \<and> imageStacks (snd (setBoundImage env unit iParam s)) = imageStacks s"
  by (simp add: setBoundImage_def andThen_def returns_def invoke_def assertCorrectImageUnit_def
      issue_def WARN_def split: option.splits if_splits)

lemma setTexture_Returns:
  "fst (setTexture env unit tex s) = Returns () \<Longrightarrow>
   getTexture env unit (snd (setTexture env unit tex s)) = tex
   \<and> textureStacks (snd (setTexture env unit tex s)) = textureStacks s"
  by (simp add: setTexture_def andThen_def returns_def invoke_def at_MAX_TEXTURES_def
      issue_def getTexture_def split: option.splits if_splits)

lemma pop_spec:
  assumes "stack_of c s = t # rest" "fst (pop env c s) = Returns ()" "c \<noteq> Material"
  shows "target_of env c (snd (pop env c s)) = t"
    and "c \<noteq> Shader \<Longrightarrow> stack_of c (snd (pop env c s)) = rest"
proof -
  have "target_of env c (snd (pop env c s)) = t
        \<and> (c \<noteq> Shader \<longrightarrow> stack_of c (snd (pop env c s)) = rest)"
  proof (cases c)
    case (BoundImage unit)
    from assms(1) BoundImage obtain saved others where
      st: "imageStacks s (unat unit) = saved # others" "t = Image saved" "rest = map Image others"
      by auto
    have ok: "fst (popBoundImage env unit s) = Returns ()" using assms(2) BoundImage by simp
    then have a: "fst (assertCorrectImageUnit env unit s) = Returns ()"
      by (auto simp: popBoundImage_def andThen_def split: prod.splits outcome.splits)
    then have a': "assertCorrectImageUnit env unit s = (Returns (), s)"
      by (simp add: assertCorrectImageUnit_def split: if_splits)
    have eq: "popBoundImage env unit s =
        andThen (setBoundImage env unit saved)
          (returns (\<lambda>s1. s1\<lparr>imageStacks := (imageStacks s1)(unat unit := others)\<rparr>)) s"
      by (simp add: popBoundImage_def andThen_def a' st(1))
    have r: "fst (setBoundImage env unit saved s) = Returns ()"
      by (rule andThen_Returns(1) [OF ok [unfolded eq]])
    note R = setBoundImage_Returns [OF r]
    have "snd (popBoundImage env unit s) =
       (snd (setBoundImage env unit saved s))
         \<lparr>imageStacks := (imageStacks (snd (setBoundImage env unit saved s)))(unat unit := others)\<rparr>"
      unfolding eq andThen_Returns(3) [OF ok [unfolded eq]] by simp
    then show ?thesis using R BoundImage st by simp
  next
    case (Texture unit)
    from assms(1) Texture obtain saved others where
      st: "textureStacks s (unat unit) = saved # others" "t = Pointer saved" "rest = map Pointer others"
      by auto
    have ok: "fst (popTexture env unit s) = Returns ()" using assms(2) Texture by simp
    then have a: "fst (at_MAX_TEXTURES env unit s) = Returns ()"
      by (auto simp: popTexture_def andThen_def split: prod.splits outcome.splits)
    then have a': "at_MAX_TEXTURES env unit s = (Returns (), s)"
      by (simp add: at_MAX_TEXTURES_def split: if_splits)
    have eq: "popTexture env unit s =
        andThen (setTexture env unit saved)
          (returns (\<lambda>s1. s1\<lparr>textureStacks := (textureStacks s1)(unat unit := others)\<rparr>)) s"
      by (simp add: popTexture_def andThen_def a' st(1))
    have r: "fst (setTexture env unit saved s) = Returns ()"
      by (rule andThen_Returns(1) [OF ok [unfolded eq]])
    note R = setTexture_Returns [OF r]
    have "snd (popTexture env unit s) =
       (snd (setTexture env unit saved s))
         \<lparr>textureStacks := (textureStacks (snd (setTexture env unit saved s)))(unat unit := others)\<rparr>"
      unfolding eq andThen_Returns(3) [OF ok [unfolded eq]] by simp
    then show ?thesis using R Texture st by (auto simp: getTexture_def split: if_splits)
  qed (use assms in \<open>auto simp: getters setters poppers\<close>)
  then show "target_of env c (snd (pop env c s)) = t"
    and "c \<noteq> Shader \<Longrightarrow> stack_of c (snd (pop env c s)) = rest" by blast+
qed


subsection \<open>Push, set and pop in sequence\<close>

text \<open>
  For every category other than the material: when \<open>push\<close>, \<open>set\<close> with any value and
  \<open>pop\<close> of the category are called in this order and return, whatever calls on other
  categories are made in between, the target value of the category after the \<open>pop\<close> is
  its value before the \<open>push\<close>; and, the shader apart, so is its stack.
\<close>

lemma push_set_pop_restores_other_categories:
  fixes s :: "('p, 'm) InternalData"
  assumes "\<forall>x \<in> set others1. category x \<noteq> c"
    and "\<forall>x \<in> set others2. category x \<noteq> c"
    and "fst (run env (Push c # others1 @ Set c v # others2 @ [Pop c]) s) = Returns ()"
    and "c \<noteq> Material"
  shows "target_of env c (snd (run env (Push c # others1 @ Set c v # others2 @ [Pop c]) s))
           = target_of env c s"
    and "c \<noteq> Shader \<Longrightarrow>
         stack_of c (snd (run env (Push c # others1 @ Set c v # others2 @ [Pop c]) s))
           = stack_of c s"
proof -
  let ?tail3 = "[Pop c] :: ('p, 'm) op list"
  let ?tail2 = "Set c v # others2 @ ?tail3"
  let ?tail1 = "others1 @ ?tail2"
  define s1 where "s1 = snd (push env c s)"
  define s2 where "s2 = snd (run env others1 s1)"
  define s3 where "s3 = snd (set_value env c v s2)"
  define s4 where "s4 = snd (run env others2 s3)"
  have all: "fst (andThen (push env c) (run env ?tail1) s) = Returns ()"
    using assms(3) by simp
  have p: "fst (push env c s) = Returns ()" by (rule andThen_Returns(1) [OF all])
  have r1: "fst (run env ?tail1 s1) = Returns ()"
    unfolding s1_def by (rule andThen_Returns(2) [OF all])
  have e1: "snd (run env (Push c # ?tail1) s) = snd (run env ?tail1 s1)"
    unfolding s1_def using andThen_Returns(3) [OF all] by simp
  have r1': "fst (andThen (run env others1) (run env ?tail2) s1) = Returns ()"
    using r1 by (simp only: run_append)
  have r2: "fst (run env ?tail2 s2) = Returns ()"
    unfolding s2_def by (rule andThen_Returns(2) [OF r1'])
  have e2: "snd (run env ?tail1 s1) = snd (run env ?tail2 s2)"
    unfolding s2_def using andThen_Returns(3) [OF r1'] by (simp only: run_append)
  have r2': "fst (andThen (set_value env c v) (run env (others2 @ ?tail3)) s2) = Returns ()"
    using r2 by simp
  have r3: "fst (run env (others2 @ ?tail3) s3) = Returns ()"
    unfolding s3_def by (rule andThen_Returns(2) [OF r2'])
  have e3: "snd (run env ?tail2 s2) = snd (run env (others2 @ ?tail3) s3)"
    unfolding s3_def using andThen_Returns(3) [OF r2'] by simp
  have r3': "fst (andThen (run env others2) (run env ?tail3) s3) = Returns ()"
    using r3 by (simp only: run_append)
  have r4: "fst (run env ?tail3 s4) = Returns ()"
    unfolding s4_def by (rule andThen_Returns(2) [OF r3'])
  have e4: "snd (run env (others2 @ ?tail3) s3) = snd (run env ?tail3 s4)"
    unfolding s4_def using andThen_Returns(3) [OF r3'] by (simp only: run_append)
  have r4': "fst (andThen (pop env c) (returns (\<lambda>s. s)) s4) = Returns ()"
    using r4 by simp
  have r5: "fst (pop env c s4) = Returns ()" by (rule andThen_Returns(1) [OF r4'])
  have e5: "snd (run env ?tail3 s4) = snd (pop env c s4)"
    using andThen_Returns(3) [OF r4'] by simp
  have final: "snd (run env (Push c # ?tail1) s) = snd (pop env c s4)"
    by (simp only: e1 e2 e3 e4 e5)
  have st1: "stack_of c s1 = target_of env c s # stack_of c s"
    unfolding s1_def using push_spec [OF p] by blast
  have st2: "stack_of c s2 = stack_of c s1"
    unfolding s2_def using run_frame [OF assms(1)] by blast
  have st3: "stack_of c s3 = stack_of c s2"
    unfolding s3_def by (rule set_value_stack)
  have st4: "stack_of c s4 = stack_of c s3" and tg4: "target_of env c s4 = target_of env c s3"
    unfolding s4_def using run_frame [OF assms(2)] by blast+
  have st: "stack_of c s4 = target_of env c s # stack_of c s"
    by (simp only: st4 st3 st2 st1)
  have others: "target_of env c (snd (pop env c s4)) = target_of env c s
          \<and> (c \<noteq> Shader \<longrightarrow> stack_of c (snd (pop env c s4)) = stack_of c s)"
    if "c \<noteq> Material"
    using pop_spec [OF st r5 that] by blast
  show "target_of env c (snd (run env (Push c # others1 @ Set c v # others2 @ [Pop c]) s))
           = target_of env c s"
    unfolding final using others [OF assms(4)] by blast
  show "stack_of c (snd (run env (Push c # others1 @ Set c v # others2 @ [Pop c]) s))
           = stack_of c s" if "c \<noteq> Shader"
    unfolding final using others [OF assms(4)] that by blast
qed

text \<open>
  Claim C1 fails on the material. \<open>pushMaterial\<close> saves the active material on the stack,
  and \<open>popMaterial\<close> removes that element without reading it: after \<open>pushMaterial\<close>,
  \<open>setMaterial\<close> and \<open>popMaterial\<close> the active material is the material that was set
  with \<open>enabled\<close> cleared when the stack was empty before, and otherwise the element an
  earlier \<open>pushMaterial\<close> saved; the material that was active before the \<open>pushMaterial\<close>
  is lost. On a new context, \<open>pushMaterial\<close>, \<open>setMaterial\<close> with the material 5 and
  \<open>popMaterial\<close> return and leave the material 5, disabled, where the default material,
  enabled, was active before.
\<close>

theorem popMaterial_discards_saved_material:
  fixes s :: "('p, 'm) InternalData"
  shows "activeMaterial (popMaterial (setMaterial m (pushMaterial s)))
           = (case materialStack s of
                [] \<Rightarrow> (MaterialData_of m)\<lparr>enabled := 0\<rparr>
              | below # others \<Rightarrow> below)
       \<and> materialStack (popMaterial (setMaterial m (pushMaterial s))) = materialStack s
       \<and> fst (run example_env [Push Material, Set Material (Parameters 5), Pop Material]
                fresh_context) = Returns ()
       \<and> target_of example_env Material fresh_context
           = MaterialValue \<lparr>mat = 0, enabled = 1, pad = 0\<rparr>
       \<and> target_of example_env Material
            (snd (run example_env [Push Material, Set Material (Parameters 5), Pop Material]
                    fresh_context))
           = MaterialValue \<lparr>mat = 5, enabled = 0, pad = 0\<rparr>"
proof (intro conjI)
  show "activeMaterial (popMaterial (setMaterial m (pushMaterial s)))
           = (case materialStack s of
                [] \<Rightarrow> (MaterialData_of m)\<lparr>enabled := 0\<rparr>
              | below # others \<Rightarrow> below)"
    by (simp add: popMaterial_def setMaterial_def pushMaterial_def split: list.splits)
  show "materialStack (popMaterial (setMaterial m (pushMaterial s))) = materialStack s"
    by (simp add: popMaterial_def setMaterial_def pushMaterial_def split: list.splits)
  show "fst (run example_env [Push Material, Set Material (Parameters 5), Pop Material]
                fresh_context) = Returns ()"
    by (simp add: andThen_def returns_def set_value_def)
  show "target_of example_env Material fresh_context
           = MaterialValue \<lparr>mat = 0, enabled = 1, pad = 0\<rparr>"
    by (simp add: fresh_context_def RenderingContext_ctor_def MaterialData_of_def)
  show "target_of example_env Material
            (snd (run example_env [Push Material, Set Material (Parameters 5), Pop Material]
                    fresh_context))
           = MaterialValue \<lparr>mat = 5, enabled = 0, pad = 0\<rparr>"
    by (simp add: andThen_def returns_def set_value_def pushMaterial_def setMaterial_def
        popMaterial_def MaterialData_of_def fresh_context_def RenderingContext_ctor_def)
qed

text \<open>
  Claim C3. For every category, with a unit that exists where the category has units:
  \<open>pop\<close> on an empty stack returns normally, and the context it leaves is the context
  before the call with one message added to the warning channel; so the target value of
  the category is unchanged and its stack is still empty.
\<close>

theorem pop_empty_stack_warns:
  fixes s :: "('p, 'm) InternalData"
  assumes "stack_of c s = []" and "cat_valid env c"
  shows "(\<exists>msg. pop env c s = (Returns (), WARN msg s))
       \<and> fst (pop env c s) = Returns ()
       \<and> target_of env c (snd (pop env c s)) = target_of env c s
       \<and> stack_of c (snd (pop env c s)) = []"
proof -
  have w: "\<exists>msg. pop env c s = (Returns (), WARN msg s)"
    using assms
    by (cases c;
        simp add: poppers returns_def popBoundImage_def popTexture_def andThen_def
          assertCorrectImageUnit_def at_MAX_TEXTURES_def;
        blast)
  then obtain msg where m: "pop env c s = (Returns (), WARN msg s)" by blast
  have "target_of env c (WARN msg s) = target_of env c s"
    by (cases c) (simp_all add: WARN_def getters)
  moreover have "stack_of c (WARN msg s) = stack_of c s"
    by (cases c) (simp_all add: WARN_def)
  ultimately show ?thesis using w m assms(1) by simp
qed

theorem pop_empty_stack_warns_witness:
  "stack_of (BoundImage 3) fresh_context = []
   \<and> cat_valid example_env (BoundImage 3)
   \<and> pop example_env (BoundImage 3) fresh_context
       = (Returns (), WARN ''popBoundImage: Empty stack'' fresh_context)
   \<and> target_of example_env (BoundImage 3) (snd (pop example_env (BoundImage 3) fresh_context))
       = target_of example_env (BoundImage 3) fresh_context"
proof -
  have h1: "stack_of (BoundImage 3) fresh_context = []"
    by (simp add: fresh_context_def RenderingContext_ctor_def)
  have h2: "cat_valid example_env (BoundImage 3)" by (simp add: example_env_def)
  have e: "pop example_env (BoundImage 3) fresh_context
       = (Returns (), WARN ''popBoundImage: Empty stack'' fresh_context)"
    by (simp add: popBoundImage_def andThen_def assertCorrectImageUnit_def example_env_def
        fresh_context_def RenderingContext_ctor_def)
  from pop_empty_stack_warns [OF h1 h2] h1 h2 e show ?thesis by blast
qed

text \<open>
  Claim C4 fails on the shader stack: \<open>popShader\<close> restores the top of the stack into the
  target and leaves the stack as it is, so after \<open>pushShader\<close> and \<open>popShader\<close> the stack
  is one element longer than before.
\<close>

theorem popShader_does_not_remove:
  fixes s :: "('p, 'm) InternalData"
  shows "shaderStack (popShader s) = shaderStack s
       \<and> length (stack_of Shader (snd (pop env Shader (snd (push env Shader s)))))
           = Suc (length (stack_of Shader s))
       \<and> shaderStack (popShader (pushShader fresh_context)) = [nullptr]"
  by (simp add: popShader_def pushShader_def setShader_def WARN_def getActiveShader_def
      fresh_context_def RenderingContext_ctor_def PipelineState_default_def split: list.splits)


section \<open>Properties of the active light set\<close>

lemma enableLight_scan_iff:
  "enableLight_scan i n ls \<longleftrightarrow> (\<exists>j. i \<le> j \<and> j < unat (count ls) \<and> lights ls ! j = ucast n)"
proof (induction i n ls rule: enableLight_scan.induct)
  case (1 i n ls)
  show ?case
  proof (cases "i < unat (count ls)")
    case False
    then show ?thesis by (subst enableLight_scan.simps) auto
  next
    case True
    show ?thesis
    proof (cases "lights ls ! i = ucast n")
      case True
      with \<open>i < unat (count ls)\<close> show ?thesis
        by (subst enableLight_scan.simps) auto
    next
      case False
      have "enableLight_scan i n ls = enableLight_scan (Suc i) n ls"
        using True False by (subst enableLight_scan.simps) simp
      also have "\<dots> \<longleftrightarrow> (\<exists>j. Suc i \<le> j \<and> j < unat (count ls) \<and> lights ls ! j = ucast n)"
        using 1 True False by simp
      also have "\<dots> \<longleftrightarrow> (\<exists>j. i \<le> j \<and> j < unat (count ls) \<and> lights ls ! j = ucast n)"
        using False by (metis Suc_leD Suc_leI le_neq_implies_less)
      finally show ?thesis .
    qed
  qed
qed

lemma disableLight_from_absent:
  "(\<forall>j. i \<le> j \<and> j < unat (count ls) \<longrightarrow> lights ls ! j \<noteq> ucast n) \<Longrightarrow> disableLight_from i n ls = ls"
proof (induction i n ls rule: disableLight_from.induct)
  case (1 pos n ls)
  show ?case
  proof (cases "pos < unat (count ls)")
    case False
    then show ?thesis by (subst disableLight_from.simps) simp
  next
    case True
    with 1(2) have ne: "lights ls ! pos \<noteq> ucast n" by auto
    have "disableLight_from pos n ls = disableLight_from (Suc pos) n ls"
      using True ne by (subst disableLight_from.simps) simp
    also have "\<dots> = ls"
      using 1(1) [OF True ne] 1(2) by auto
    finally show ?thesis .
  qed
qed

lemma disableLight_from_present:
  "i \<le> p \<Longrightarrow> p < unat (count ls) \<Longrightarrow> lights ls ! p = ucast n \<Longrightarrow>
   (\<forall>q. i \<le> q \<and> q < p \<longrightarrow> lights ls ! q \<noteq> ucast n) \<Longrightarrow>
   disableLight_from i n ls =
     \<lparr>count = count ls - 1,
      lights = (lights ls)[p := lights ls ! unat (count ls - 1), unat (count ls - 1) := ucast n]\<rparr>"
proof (induction i n ls rule: disableLight_from.induct)
  case (1 pos n ls)
  have lt: "pos < unat (count ls)" using 1(2,3) by simp
  show ?case
  proof (cases "pos = p")
    case True
    then show ?thesis
      using 1(3,4) by (subst disableLight_from.simps) (simp add: Let_def)
  next
    case False
    then have ne: "lights ls ! pos \<noteq> ucast n" using 1(2,5) by auto
    have "disableLight_from pos n ls = disableLight_from (Suc pos) n ls"
      using lt ne by (subst disableLight_from.simps) simp
    also have "\<dots> = \<lparr>count = count ls - 1,
      lights = (lights ls)[p := lights ls ! unat (count ls - 1), unat (count ls - 1) := ucast n]\<rparr>"
      using 1(1) [OF lt ne] 1(2-5) False by auto
    finally show ?thesis .
  qed
qed

lemma first_index:
  "x \<in> set xs \<Longrightarrow> \<exists>p. p < length xs \<and> xs ! p = x \<and> (\<forall>q<p. xs ! q \<noteq> x)"
proof (induction xs)
  case Nil then show ?case by simp
next
  case (Cons a xs)
  show ?case
  proof (cases "a = x")
    case True
    then show ?thesis by (intro exI[where x=0]) simp
  next
    case False
    with Cons obtain p where p: "p < length xs" "xs ! p = x" "\<forall>q<p. xs ! q \<noteq> x" by auto
    show ?thesis
    proof (intro exI[where x="Suc p"] conjI allI impI)
      fix q assume "q < Suc p"
      then show "(a # xs) ! q \<noteq> x" using p(3) False by (cases q) auto
    qed (use p in auto)
  qed
qed

text \<open>
  Claim C10. \<open>disableLight\<close> with an id that is not among the enabled lights returns the
  context as it was: the active light set, the registry, the pool of free ids, the cache
  and the warning channel are unchanged. With an id that is enabled, the first slot \<open>p\<close>
  that holds it receives the light of the last enabled slot, the id moves to that last
  slot, and the count drops by one; the registry and the pool of free ids are unchanged,
  so the id stays registered. The hypothesis is the bound of the array: the count never
  exceeds the number of slots.
\<close>

theorem disableLight_noop_or_swap_with_last:
  fixes s :: "('p, 'm) InternalData"
  assumes "unat (count (activeLightSet s)) \<le> length (lights (activeLightSet s))"
  shows "(ucast n \<notin> set (activeLights (activeLightSet s)) \<longrightarrow> disableLight n s = s)
       \<and> (ucast n \<in> set (activeLights (activeLightSet s)) \<longrightarrow>
            (\<exists>p. p < unat (count (activeLightSet s))
               \<and> lights (activeLightSet s) ! p = ucast n
               \<and> (\<forall>q<p. lights (activeLightSet s) ! q \<noteq> ucast n)
               \<and> disableLight n s =
                   s\<lparr>activeLightSet :=
                     \<lparr>count = count (activeLightSet s) - 1,
                      lights = (lights (activeLightSet s))
                        [p := lights (activeLightSet s) ! (unat (count (activeLightSet s)) - 1),
                         unat (count (activeLightSet s)) - 1 := ucast n]\<rparr>\<rparr>))
       \<and> lightRegistry (disableLight n s) = lightRegistry s
       \<and> freeLightIds (disableLight n s) = freeLightIds s
       \<and> cache (disableLight n s) = cache s
       \<and> warnings (disableLight n s) = warnings s"
proof (intro conjI impI)
  let ?ls = "activeLightSet s"
  show "disableLight n s = s" if "ucast n \<notin> set (activeLights ?ls)"
  proof -
    have "\<forall>j. 0 \<le> j \<and> j < unat (count ?ls) \<longrightarrow> lights ?ls ! j \<noteq> ucast n"
      using that assms by (auto simp: activeLights_def in_set_conv_nth)
    then have "disableLight_from 0 n ?ls = ?ls" by (rule disableLight_from_absent)
    then show ?thesis by (simp add: disableLight_def)
  qed
  show "\<exists>p. p < unat (count ?ls) \<and> lights ?ls ! p = ucast n \<and> (\<forall>q<p. lights ?ls ! q \<noteq> ucast n)
          \<and> disableLight n s = s\<lparr>activeLightSet := \<lparr>count = count ?ls - 1,
               lights = (lights ?ls)[p := lights ?ls ! (unat (count ?ls) - 1),
                                     unat (count ?ls) - 1 := ucast n]\<rparr>\<rparr>"
    if "ucast n \<in> set (activeLights ?ls)"
  proof -
    from first_index [OF that] obtain p where
      p: "p < length (activeLights ?ls)" "activeLights ?ls ! p = ucast n"
         "\<forall>q<p. activeLights ?ls ! q \<noteq> ucast n" by blast
    have lt: "p < unat (count ?ls)" using p(1) by (simp add: activeLights_def)
    have at: "lights ?ls ! p = ucast n" using p(2) lt by (simp add: activeLights_def)
    have before: "\<forall>q<p. lights ?ls ! q \<noteq> ucast n"
      using p(3) lt by (auto simp: activeLights_def)
    have pos: "count ?ls \<noteq> 0" using lt by (auto simp: unat_eq_zero)
    then have dec: "unat (count ?ls - 1) = unat (count ?ls) - 1"
      by (simp add: unat_minus_one)
    have "disableLight_from 0 n ?ls =
       \<lparr>count = count ?ls - 1,
        lights = (lights ?ls)[p := lights ?ls ! unat (count ?ls - 1), unat (count ?ls - 1) := ucast n]\<rparr>"
      using lt at before by (intro disableLight_from_present) auto
    then have "disableLight n s = s\<lparr>activeLightSet := \<lparr>count = count ?ls - 1,
               lights = (lights ?ls)[p := lights ?ls ! (unat (count ?ls) - 1),
                                     unat (count ?ls) - 1 := ucast n]\<rparr>\<rparr>"
      by (simp add: disableLight_def dec)
    with lt at before show ?thesis by blast
  qed
qed (simp_all add: disableLight_def)

lemma two_lights_enabled_set:
  "activeLightSet two_lights_enabled = \<lparr>count = 2, lights = [0, 1, 0, 0, 0, 0, 0, 0]\<rparr>"
  by (simp add: two_lights_enabled_def fresh_context_def enableLight_id_def
      RenderingContext_ctor_def enableLight_scan.simps MAX_ENABLED_LIGHTS_def Let_def
      word_le_nat_alt)

theorem disableLight_noop_or_swap_with_last_witness:
  "unat (count (activeLightSet two_lights_enabled)) \<le> length (lights (activeLightSet two_lights_enabled))
   \<and> ucast (7 :: uint8) \<notin> set (activeLights (activeLightSet two_lights_enabled))
   \<and> disableLight 7 two_lights_enabled = two_lights_enabled
   \<and> ucast (0 :: uint8) \<in> set (activeLights (activeLightSet two_lights_enabled))
   \<and> activeLights (activeLightSet (disableLight 0 two_lights_enabled)) = [1]
   \<and> freeLightIds (disableLight 0 two_lights_enabled) = freeLightIds two_lights_enabled"
proof -
  have h: "unat (count (activeLightSet two_lights_enabled))
             \<le> length (lights (activeLightSet two_lights_enabled))"
    by (simp add: two_lights_enabled_set)
  have absent: "ucast (7 :: uint8) \<notin> set (activeLights (activeLightSet two_lights_enabled))"
    by (simp add: two_lights_enabled_set activeLights_def)
  have present: "ucast (0 :: uint8) \<in> set (activeLights (activeLightSet two_lights_enabled))"
    by (simp add: two_lights_enabled_set activeLights_def)
  have swapped: "activeLights (activeLightSet (disableLight 0 two_lights_enabled)) = [1]"
    by (simp add: disableLight_def two_lights_enabled_set disableLight_from.simps activeLights_def)
  from disableLight_noop_or_swap_with_last [OF h, of 7] absent
  have "disableLight 7 two_lights_enabled = two_lights_enabled" by blast
  moreover from disableLight_noop_or_swap_with_last [OF h, of 0]
  have "freeLightIds (disableLight 0 two_lights_enabled) = freeLightIds two_lights_enabled"
    by blast
  ultimately show ?thesis using h absent present swapped by blast
qed

section \<open>Properties of the light registry\<close>

lemma ctor_freeLightIds: "freeLightIds (RenderingContext_ctor d i) = {n. unat n < 255}"
proof -
  have "fold (\<lambda>i ids. insert (of_nat i) ids) xs S = S \<union> of_nat ` set xs" for xs and S :: "uint8 set"
    by (induction xs arbitrary: S) auto
  then have "freeLightIds (RenderingContext_ctor d i) = (of_nat ` {0..<255} :: uint8 set)"
    by (simp add: RenderingContext_ctor_def)
  also have "\<dots> = {n. unat n < 255}"
  proof (rule set_eqI, rule iffI)
    fix x :: uint8 assume "x \<in> of_nat ` {0..<255}"
    then obtain k where "k < 255" "x = of_nat k" by auto
    then show "x \<in> {n. unat n < 255}" by (simp add: unat_of_nat)
  next
    fix x :: uint8 assume "x \<in> {n. unat n < 255}"
    then have "unat x < 255" by simp
    then show "x \<in> of_nat ` {0..<255}"
      by (intro image_eqI[where x="unat x"]) simp_all
  qed
  finally show ?thesis .
qed

lemma Min_free_from:
  assumes "k < 255"
  shows "Min {n :: uint8. k \<le> unat n \<and> unat n < 255} = of_nat k"
proof (rule Min_eqI)
  show "finite {n :: uint8. k \<le> unat n \<and> unat n < 255}" by simp
  have k: "unat (of_nat k :: uint8) = k" using assms by (simp add: unat_of_nat)
  show "of_nat k \<in> {n :: uint8. k \<le> unat n \<and> unat n < 255}" using assms k by simp
  fix y :: uint8 assume "y \<in> {n. k \<le> unat n \<and> unat n < 255}"
  then show "of_nat k \<le> y" using k by (simp add: word_le_nat_alt)
qed

lemma free_from_remove:
  assumes "k < 255"
  shows "{n :: uint8. k \<le> unat n \<and> unat n < 255} - {of_nat k} = {n. Suc k \<le> unat n \<and> unat n < 255}"
proof -
  have k: "unat (of_nat k :: uint8) = k" using assms by (simp add: unat_of_nat)
  have eq: "n = of_nat k \<longleftrightarrow> unat n = k" for n :: uint8
    using k by auto
  show ?thesis
  proof (rule set_eqI)
    fix n :: uint8
    have "n \<in> {n. k \<le> unat n \<and> unat n < 255} - {of_nat k}
            \<longleftrightarrow> k \<le> unat n \<and> unat n < 255 \<and> unat n \<noteq> k"
      by (simp add: eq conj_assoc)
    also have "\<dots> \<longleftrightarrow> Suc k \<le> unat n \<and> unat n < 255" by arith
    finally show "n \<in> {n. k \<le> unat n \<and> unat n < 255} - {of_nat k}
            \<longleftrightarrow> n \<in> {n. Suc k \<le> unat n \<and> unat n < 255}" by simp
  qed
qed

lemma registerLight_nonempty:
  "freeLightIds s \<noteq> {} \<Longrightarrow>
   registerLight l s =
     (Min (freeLightIds s),
      cache_setLightData (Min (freeLightIds s)) l (s\<lparr>freeLightIds := freeLightIds s - {Min (freeLightIds s)}\<rparr>))"
  by (simp add: registerLight_def Let_def)

lemma registerLight_from:
  assumes "freeLightIds s = {n. k \<le> unat n \<and> unat n < 255}" "k < 255"
  shows "registerLight l s =
     (of_nat k, cache_setLightData (of_nat k) l (s\<lparr>freeLightIds := {n. Suc k \<le> unat n \<and> unat n < 255}\<rparr>))"
proof -
  have k: "unat (of_nat k :: uint8) = k" using assms by (simp add: unat_of_nat)
  have "of_nat k \<in> freeLightIds s" unfolding assms(1) using assms(2) k by simp
  then have ne: "freeLightIds s \<noteq> {}" by blast
  have m: "Min (freeLightIds s) = of_nat k"
    unfolding assms(1) by (rule Min_free_from [OF assms(2)])
  have r: "freeLightIds s - {of_nat k} = {n. Suc k \<le> unat n \<and> unat n < 255}"
    unfolding assms(1) by (rule free_from_remove [OF assms(2)])
  show ?thesis
    unfolding registerLight_nonempty [OF ne] m r ..
qed

lemma registerLights_Cons:
  "registerLights (l # ls) s =
     (fst (registerLight l s) # fst (registerLights ls (snd (registerLight l s))),
      snd (registerLights ls (snd (registerLight l s))))"
  by (simp add: split_beta)

lemma registerLights_from:
  "freeLightIds s = {n. k \<le> unat n \<and> unat n < 255} \<Longrightarrow> k + length ls \<le> 255 \<Longrightarrow>
   fst (registerLights ls s) = map of_nat [k ..< k + length ls]
   \<and> freeLightIds (snd (registerLights ls s)) = {n. k + length ls \<le> unat n \<and> unat n < 255}
   \<and> (\<forall>i < length ls. LightData_slot (cache (snd (registerLights ls s))) (of_nat (k + i)) = Some (ls ! i))
   \<and> (\<forall>n. unat n < k \<longrightarrow> LightData_slot (cache (snd (registerLights ls s))) n = LightData_slot (cache s) n)
   \<and> warnings (snd (registerLights ls s)) = warnings s
   \<and> lightRegistry (snd (registerLights ls s)) = lightRegistry s
   \<and> activeLightSet (snd (registerLights ls s)) = activeLightSet s"
proof (induction ls arbitrary: s k)
  case Nil
  then show ?case by simp
next
  case (Cons l ls)
  define s1 where "s1 = cache_setLightData (of_nat k) l (s\<lparr>freeLightIds := {n. Suc k \<le> unat n \<and> unat n < 255}\<rparr>)"
  define r where "r = snd (registerLights ls s1)"
  have klt: "k < 255" using Cons.prems by simp
  have k: "unat (of_nat k :: uint8) = k" using klt by (simp add: unat_of_nat)
  have reg: "registerLight l s = (of_nat k, s1)"
    unfolding s1_def using Cons.prems(1) klt by (rule registerLight_from)
  have free1: "freeLightIds s1 = {n. Suc k \<le> unat n \<and> unat n < 255}"
    by (simp add: s1_def cache_setLightData_def issue_def)
  have len: "Suc k + length ls \<le> 255" using Cons.prems by simp
  note IH = Cons.IH [OF free1 len, folded r_def]
  from IH have IH1: "fst (registerLights ls s1) = map of_nat [Suc k ..< Suc k + length ls]"
    by (elim conjE)
  from IH have IH2: "freeLightIds r = {n. Suc k + length ls \<le> unat n \<and> unat n < 255}"
    by (elim conjE)
  from IH have IH3: "\<And>i. i < length ls \<Longrightarrow> LightData_slot (cache r) (of_nat (Suc k + i)) = Some (ls ! i)"
    by (elim conjE) simp
  from IH have IH4: "\<And>n. unat n < Suc k \<Longrightarrow> LightData_slot (cache r) n = LightData_slot (cache s1) n"
    by (elim conjE) simp
  from IH have IH5: "warnings r = warnings s1" "lightRegistry r = lightRegistry s1"
    "activeLightSet r = activeLightSet s1" by simp_all
  have unfold: "registerLights (l # ls) s = (of_nat k # fst (registerLights ls s1), r)"
    unfolding registerLights_Cons reg r_def by simp
  have slot1: "LightData_slot (cache s1) = (LightData_slot (cache s))(of_nat k := Some l)"
    by (simp add: s1_def cache_setLightData_def issue_def)
  have e: "k + length (l # ls) = Suc k + length ls" by simp
  have upt: "[k ..< k + length (l # ls)] = k # [Suc k ..< Suc k + length ls]"
    unfolding e by (rule upt_conv_Cons) simp
  have ids: "fst (registerLights (l # ls) s) = map of_nat [k ..< k + length (l # ls)]"
    unfolding unfold upt using IH1 by simp
  have free: "freeLightIds (snd (registerLights (l # ls) s)) = {n. k + length (l # ls) \<le> unat n \<and> unat n < 255}"
    unfolding unfold using IH2 by simp
  have data: "LightData_slot (cache (snd (registerLights (l # ls) s))) (of_nat (k + i)) = Some ((l # ls) ! i)"
    if i: "i < length (l # ls)" for i
  proof (cases i)
    case 0
    have "LightData_slot (cache r) (of_nat k) = LightData_slot (cache s1) (of_nat k)"
      using IH4 [of "of_nat k"] k by simp
    then show ?thesis unfolding unfold using 0 by (simp add: slot1)
  next
    case (Suc j)
    then have "j < length ls" using i by simp
    from IH3 [OF this] have "LightData_slot (cache r) (of_nat (k + i)) = Some (ls ! j)"
      unfolding Suc by (simp only: add_Suc add_Suc_right)
    then show ?thesis unfolding unfold using Suc by simp
  qed
  have old: "LightData_slot (cache (snd (registerLights (l # ls) s))) n = LightData_slot (cache s) n"
    if n: "unat n < k" for n
  proof -
    have "n \<noteq> of_nat k" using k n by auto
    moreover have "LightData_slot (cache r) n = LightData_slot (cache s1) n"
      using IH4 [of n] n by simp
    ultimately show ?thesis unfolding unfold by (simp add: slot1)
  qed
  have rest: "warnings (snd (registerLights (l # ls) s)) = warnings s"
    "lightRegistry (snd (registerLights (l # ls) s)) = lightRegistry s"
    "activeLightSet (snd (registerLights (l # ls) s)) = activeLightSet s"
    unfolding unfold using IH5 by (simp_all add: s1_def cache_setLightData_def issue_def)
  show ?case
  proof (intro conjI allI impI)
    show "fst (registerLights (l # ls) s) = map of_nat [k ..< k + length (l # ls)]" by (rule ids)
    show "freeLightIds (snd (registerLights (l # ls) s)) = {n. k + length (l # ls) \<le> unat n \<and> unat n < 255}"
      by (rule free)
    show "LightData_slot (cache (snd (registerLights (l # ls) s))) (of_nat (k + i)) = Some ((l # ls) ! i)"
      if "i < length (l # ls)" for i using that by (rule data)
    show "LightData_slot (cache (snd (registerLights (l # ls) s))) n = LightData_slot (cache s) n"
      if "unat n < k" for n using that by (rule old)
  qed (rule rest)+
qed





lemma enableLight_id_active:
  fixes s :: "('p, 'm) InternalData"
  assumes "unat (count (activeLightSet s)) \<le> length (lights (activeLightSet s))"
    and "ucast n \<in> set (activeLights (activeLightSet s))"
  shows "enableLight_id n s = s"
proof -
  from assms obtain j where "j < unat (count (activeLightSet s))" "lights (activeLightSet s) ! j = ucast n"
    by (auto simp: activeLights_def in_set_conv_nth)
  then have "enableLight_scan 0 n (activeLightSet s)"
    unfolding enableLight_scan_iff by blast
  then show ?thesis by (simp add: enableLight_id_def Let_def)
qed

lemma enableLight_id_full:
  fixes s :: "('p, 'm) InternalData"
  assumes "unat (count (activeLightSet s)) \<le> length (lights (activeLightSet s))"
    and "ucast n \<notin> set (activeLights (activeLightSet s))"
    and "count (activeLightSet s) \<ge> 8"
  shows "enableLight_id n s = WARN ''Cannot enable more lights; ignoring call.'' s"
proof -
  have "\<not> enableLight_scan 0 n (activeLightSet s)"
    unfolding enableLight_scan_iff using assms(1,2)
    by (auto simp: activeLights_def in_set_conv_nth)
  then show ?thesis using assms(3) by (simp add: enableLight_id_def MAX_ENABLED_LIGHTS_def Let_def)
qed

lemma enableLight_id_appended:
  fixes s :: "('p, 'm) InternalData"
  assumes "unat (count (activeLightSet s)) < length (lights (activeLightSet s))"
    and "ucast n \<notin> set (activeLights (activeLightSet s))"
    and "count (activeLightSet s) < 8"
  shows "enableLight_id n s =
           s\<lparr>activeLightSet := \<lparr>count = count (activeLightSet s) + 1,
              lights = (lights (activeLightSet s))[unat (count (activeLightSet s)) := ucast n]\<rparr>\<rparr>"
    and "activeLights (activeLightSet (enableLight_id n s)) = activeLights (activeLightSet s) @ [ucast n]"
proof -
  let ?ls = "activeLightSet s"
  have "\<not> enableLight_scan 0 n ?ls"
    unfolding enableLight_scan_iff using assms(1,2)
    by (auto simp: activeLights_def in_set_conv_nth)
  moreover have "\<not> count ?ls \<ge> 8" using assms(3) by simp
  ultimately show eq: "enableLight_id n s =
           s\<lparr>activeLightSet := \<lparr>count = count ?ls + 1,
              lights = (lights ?ls)[unat (count ?ls) := ucast n]\<rparr>\<rparr>"
    by (simp add: enableLight_id_def MAX_ENABLED_LIGHTS_def Let_def)
  have "unat (count ?ls) < 8" using assms(3) by (simp add: word_less_nat_alt)
  then have inc: "unat (count ?ls + 1) = Suc (unat (count ?ls))"
    by (simp add: unat_word_ariths)
  show "activeLights (activeLightSet (enableLight_id n s)) = activeLights ?ls @ [ucast n]"
    unfolding eq using assms(1)
    by (simp add: activeLights_def inc take_Suc_conv_app_nth)
qed


lemma enableLight_unfold:
  fixes s :: "('p, 'm) InternalData"
  shows "lightRegistry_find (lightRegistry s) l = None \<Longrightarrow>
     enableLight l s =
       (fst (registerLight l s),
        enableLight_id (fst (registerLight l s))
          ((snd (registerLight l s))
             \<lparr>lightRegistry := lightRegistry_emplace l (fst (registerLight l s))
                                  (lightRegistry (snd (registerLight l s)))\<rparr>))"
    and "lightRegistry_find (lightRegistry s) l = Some (k, n) \<Longrightarrow>
     enableLight l s = (n, enableLight_id n s)"
  by (simp_all add: enableLight_def split_beta Let_def)

lemma registerLight_frame:
  fixes s :: "('p, 'm) InternalData"
  shows "lightRegistry (snd (registerLight l s)) = lightRegistry s"
    and "activeLightSet (snd (registerLight l s)) = activeLightSet s"
  by (simp_all add: registerLight_def Let_def WARN_def cache_setLightData_def issue_def)



lemma enableLight_activeLightSet:
  fixes s :: "('p, 'm) InternalData"
  shows "activeLightSet (snd (enableLight l s)) =
         activeLightSet (enableLight_id (fst (enableLight l s)) s)"
proof (cases "lightRegistry_find (lightRegistry s) l")
  case None
  show ?thesis
    unfolding enableLight_unfold(1) [OF None]
    by (simp add: enableLight_id_def Let_def WARN_def registerLight_frame)
next
  case (Some e)
  obtain k n where e: "e = (k, n)" by (cases e)
  show ?thesis
    unfolding enableLight_unfold(2) [OF Some [unfolded e]] by simp
qed










text \<open>
  Claim C6. The constructor fills the pool of free ids with 0, ..., 254. \<open>registerLight\<close>
  on a pool that is not empty returns its least id, removes that id from the pool and
  stores the descriptor at that id. After 255 registrations on a new context the ids
  handed out are 0, ..., 254 in this order, each descriptor is stored at its id, and one
  more registration returns 255 and changes nothing but the warning channel, so that the
  255 descriptors are still stored at their ids.
\<close>

theorem registerLight_lowest_free_then_sentinel:
  fixes dflt :: "string \<Rightarrow> 'p" and identity :: 'm
  assumes "length ls = 255"
  shows "freeLightIds (RenderingContext_ctor dflt identity) = {n. n \<le> 254}
    \<and> (\<forall>(s :: ('p, 'm) InternalData) d. freeLightIds s \<noteq> {} \<longrightarrow>
          fst (registerLight d s) = Min (freeLightIds s)
          \<and> fst (registerLight d s) \<in> freeLightIds s
          \<and> freeLightIds (snd (registerLight d s)) = freeLightIds s - {fst (registerLight d s)}
          \<and> LightData_slot (cache (snd (registerLight d s))) (fst (registerLight d s)) = Some d)
    \<and> fst (registerLights ls (RenderingContext_ctor dflt identity)) = map of_nat [0 ..< 255]
    \<and> (\<forall>i < 255. LightData_slot (cache (snd (registerLights ls (RenderingContext_ctor dflt identity))))
                     (of_nat i) = Some (ls ! i))
    \<and> registerLight l (snd (registerLights ls (RenderingContext_ctor dflt identity)))
        = (255, WARN ''Cannot register more lights; ignoring call.''
                  (snd (registerLights ls (RenderingContext_ctor dflt identity))))
    \<and> (\<forall>i < 255. LightData_slot
                     (cache (snd (registerLight l (snd (registerLights ls (RenderingContext_ctor dflt identity))))))
                     (of_nat i) = Some (ls ! i))"
proof -
  let ?c = "RenderingContext_ctor dflt identity :: ('p, 'm) InternalData"
  let ?r = "snd (registerLights ls ?c)"
  have pool: "freeLightIds ?c = {n. n \<le> 254}"
  proof -
    have "unat n < 255 \<longleftrightarrow> n \<le> 254" for n :: uint8
      by (simp add: word_le_nat_alt) arith
    then show ?thesis by (simp add: ctor_freeLightIds)
  qed
  have pool0: "freeLightIds ?c = {n. 0 \<le> unat n \<and> unat n < 255}"
    by (simp add: ctor_freeLightIds)
  have least: "fst (registerLight d s) = Min (freeLightIds s)
          \<and> fst (registerLight d s) \<in> freeLightIds s
          \<and> freeLightIds (snd (registerLight d s)) = freeLightIds s - {fst (registerLight d s)}
          \<and> LightData_slot (cache (snd (registerLight d s))) (fst (registerLight d s)) = Some d"
    if ne: "freeLightIds s \<noteq> {}" for s :: "('p, 'm) InternalData" and d
  proof -
    have "Min (freeLightIds s) \<in> freeLightIds s" using ne by (intro Min_in) simp_all
    then show ?thesis
      unfolding registerLight_nonempty [OF ne]
      by (simp add: cache_setLightData_def issue_def)
  qed
  have len: "0 + length ls \<le> 255" using assms by simp
  note R = registerLights_from [OF pool0 len]
  have ids: "fst (registerLights ls ?c) = map of_nat [0 ..< 255]"
    using R assms by simp
  have stored: "LightData_slot (cache ?r) (of_nat i) = Some (ls ! i)" if "i < 255" for i
  proof -
    from R have "\<forall>i<length ls. LightData_slot (cache ?r) (of_nat (0 + i)) = Some (ls ! i)"
      by (elim conjE)
    then show ?thesis using that assms by simp
  qed
  have "freeLightIds ?r = {n. 0 + length ls \<le> unat n \<and> unat n < 255}"
    using R by (elim conjE)
  then have empty: "freeLightIds ?r = {}" using assms by simp
  have last: "registerLight l ?r = (255, WARN ''Cannot register more lights; ignoring call.'' ?r)"
    using empty by (simp add: registerLight_def)
  have kept: "LightData_slot (cache (snd (registerLight l ?r))) (of_nat i) = Some (ls ! i)"
    if "i < 255" for i
    using stored [OF that] by (simp add: last WARN_def)
  show ?thesis
  proof (intro conjI allI impI)
    show "freeLightIds ?c = {n. n \<le> 254}" by (rule pool)
    show "fst (registerLights ls ?c) = map of_nat [0 ..< 255]" by (rule ids)
    show "registerLight l ?r = (255, WARN ''Cannot register more lights; ignoring call.'' ?r)"
      by (rule last)
    show "LightData_slot (cache ?r) (of_nat i) = Some (ls ! i)" if "i < 255" for i
      using that by (rule stored)
    show "LightData_slot (cache (snd (registerLight l ?r))) (of_nat i) = Some (ls ! i)"
      if "i < 255" for i using that by (rule kept)
  qed (use least in blast)+
qed

theorem registerLight_lowest_free_then_sentinel_witness:
  "length many_lights = 255
   \<and> fst (registerLights many_lights fresh_context) = map of_nat [0 ..< 255]
   \<and> registerLight [255] (snd (registerLights many_lights fresh_context))
        = (255, WARN ''Cannot register more lights; ignoring call.''
                  (snd (registerLights many_lights fresh_context)))"
proof -
  have h: "length many_lights = 255" by (simp add: many_lights_def)
  note T = registerLight_lowest_free_then_sentinel
             [OF h, of "\<lambda>name. 0 :: nat" "0 :: nat" "[255]", folded fresh_context_def]
  from T have "fst (registerLights many_lights fresh_context) = map of_nat [0 ..< 255]"
    by (elim conjE)
  moreover from T have "registerLight [255] (snd (registerLights many_lights fresh_context))
        = (255, WARN ''Cannot register more lights; ignoring call.''
                  (snd (registerLights many_lights fresh_context)))"
    by (elim conjE)
  ultimately show ?thesis using h by (intro conjI)
qed


section \<open>The shape of the active light set\<close>

text \<open>
  The shape of the active light set holds on a new context and is kept by every function
  that writes the set.
\<close>

lemma LightSet_wf_ctor: "LightSet_wf (activeLightSet (RenderingContext_ctor dflt identity))"
  by (simp add: LightSet_wf_def RenderingContext_ctor_def activeLights_def)

lemma LightSet_wf_enableLight_id:
  fixes s :: "('p, 'm) InternalData"
  assumes "LightSet_wf (activeLightSet s)"
  shows "LightSet_wf (activeLightSet (enableLight_id n s))"
proof -
  let ?ls = "activeLightSet s"
  have len: "length (lights ?ls) = 8" and le: "unat (count ?ls) \<le> 8"
    and dist: "distinct (activeLights ?ls)"
    using assms by (simp_all add: LightSet_wf_def)
  have le': "unat (count ?ls) \<le> length (lights ?ls)" using len le by simp
  consider (present) "ucast n \<in> set (activeLights ?ls)"
    | (full) "ucast n \<notin> set (activeLights ?ls)" "count ?ls \<ge> 8"
    | (room) "ucast n \<notin> set (activeLights ?ls)" "count ?ls < 8"
    by (meson not_le)
  then show ?thesis
  proof cases
    case present
    then show ?thesis using assms enableLight_id_active [OF le'] by simp
  next
    case full
    then show ?thesis using assms enableLight_id_full [OF le'] by (simp add: WARN_def)
  next
    case room
    have ult: "unat (count ?ls) < 8" using room(2) by (simp add: word_less_nat_alt)
    then have lt': "unat (count ?ls) < length (lights ?ls)" using len by simp
    have inc: "unat (count ?ls + 1) = Suc (unat (count ?ls))"
      using ult by (simp add: unat_word_ariths)
    note A = enableLight_id_appended [OF lt' room]
    have "length (lights (activeLightSet (enableLight_id n s))) = 8"
      by (simp add: A(1) len)
    moreover have "unat (count (activeLightSet (enableLight_id n s))) \<le> 8"
      using ult by (simp add: A(1) inc)
    moreover have "distinct (activeLights (activeLightSet (enableLight_id n s)))"
      using dist room(1) by (simp add: A(2))
    ultimately show ?thesis by (simp add: LightSet_wf_def)
  qed
qed

lemma LightSet_wf_disableLight:
  fixes s :: "('p, 'm) InternalData"
  assumes "LightSet_wf (activeLightSet s)"
  shows "LightSet_wf (activeLightSet (disableLight n s))"
    and "set (activeLights (activeLightSet (disableLight n s)))
           = set (activeLights (activeLightSet s)) - {ucast n}"
proof -
  let ?ls = "activeLightSet s"
  let ?xs = "lights ?ls" and ?c = "unat (count ?ls)"
  have len: "length ?xs = 8" and le: "?c \<le> 8" and dist: "distinct (activeLights ?ls)"
    using assms by (simp_all add: LightSet_wf_def)
  have le': "?c \<le> length ?xs" using len le by simp
  have "LightSet_wf (activeLightSet (disableLight n s))
      \<and> set (activeLights (activeLightSet (disableLight n s))) = set (activeLights ?ls) - {ucast n}"
  proof (cases "ucast n \<in> set (activeLights ?ls)")
    case False
    have "disableLight n s = s"
      using disableLight_from_absent [of 0 ?ls n] False le'
      by (auto simp: disableLight_def activeLights_def in_set_conv_nth)
    then show ?thesis using assms False by simp
  next
    case True
    from first_index [OF True] obtain p where
      p: "p < length (activeLights ?ls)" "activeLights ?ls ! p = ucast n" by blast
    have lt: "p < ?c" using p(1) by (simp add: activeLights_def)
    have at: "?xs ! p = ucast n" using p(2) lt by (simp add: activeLights_def)
    have before: "\<forall>q. 0 \<le> q \<and> q < p \<longrightarrow> ?xs ! q \<noteq> ucast n"
    proof (intro allI impI)
      fix q assume q: "0 \<le> q \<and> q < p"
      then have "activeLights ?ls ! q \<noteq> activeLights ?ls ! p"
        using dist p(1) by (simp add: nth_eq_iff_index_eq)
      then show "?xs ! q \<noteq> ucast n" using q lt p(2) by (simp add: activeLights_def)
    qed
    have pos: "count ?ls \<noteq> 0" using lt by (auto simp: unat_eq_zero)
    then have dec: "unat (count ?ls - 1) = ?c - 1" by (simp add: unat_minus_one)
    define y where "y = ?xs ! (?c - 1)"
    define zs where "zs = take (?c - 1) ?xs"
    have res: "disableLight_from 0 n ?ls =
       \<lparr>count = count ?ls - 1, lights = ?xs[p := y, ?c - 1 := ucast n]\<rparr>"
      using disableLight_from_present [of 0 p ?ls n] lt at before by (simp add: dec y_def)
    have "take (?c - 1) (?xs[p := y, ?c - 1 := ucast n]) = take (?c - 1) (?xs[p := y])"
      by (rule take_update_cancel) simp
    also have "\<dots> = zs[p := y]" by (simp add: zs_def take_update_swap)
    finally have act: "activeLights (activeLightSet (disableLight n s)) = zs[p := y]"
      by (simp add: disableLight_def res activeLights_def dec)
    have c1: "?c - 1 < length ?xs" using lt le' by arith
    have split: "activeLights ?ls = zs @ [y]"
      unfolding activeLights_def zs_def y_def
      using take_Suc_conv_app_nth [OF c1] lt by simp
    have dz: "distinct zs" and ynz: "y \<notin> set zs" using dist split by simp_all
    have lz: "length zs = ?c - 1" using c1 by (simp add: zs_def)
    have wf_len: "length (lights (activeLightSet (disableLight n s))) = 8"
      by (simp add: disableLight_def res len)
    have wf_cnt: "unat (count (activeLightSet (disableLight n s))) \<le> 8"
      using le by (simp add: disableLight_def res dec)
    show ?thesis
    proof (cases "p = ?c - 1")
      case True
      have "length zs \<le> p" using True lz by simp
      then have e: "zs[p := y] = zs" by (rule list_update_beyond)
      have "y = ucast n" using True at by (simp add: y_def)
      then have "set zs = set (activeLights ?ls) - {ucast n}" using split ynz by auto
      then show ?thesis using wf_len wf_cnt dz by (simp add: LightSet_wf_def act e)
    next
      case False
      then have pz: "p < length zs" using lt lz by arith
      have zp: "zs ! p = ucast n" using pz at by (simp add: zs_def)
      have yn: "y \<noteq> ucast n" using ynz zp pz by (metis nth_mem)
      have d: "distinct (zs[p := y])" using dz ynz by (simp add: distinct_list_update)
      have "set (zs[p := y]) = insert y (set zs - {ucast n})"
        using set_update_distinct [OF dz pz] zp by simp
      also have "\<dots> = set (activeLights ?ls) - {ucast n}" using split yn by auto
      finally show ?thesis using wf_len wf_cnt d by (simp add: LightSet_wf_def act)
    qed
  qed
  then show "LightSet_wf (activeLightSet (disableLight n s))"
    and "set (activeLights (activeLightSet (disableLight n s)))
           = set (activeLights (activeLightSet s)) - {ucast n}" by blast+
qed

lemma LightSet_wf_enableLight:
  fixes s :: "('p, 'm) InternalData"
  assumes "LightSet_wf (activeLightSet s)"
  shows "LightSet_wf (activeLightSet (snd (enableLight l s)))"
  unfolding enableLight_activeLightSet using assms by (rule LightSet_wf_enableLight_id)


section \<open>Properties of applying changes and drawing\<close>

lemma applyChanges_cases:
  "(\<exists>s1. applyChanges_body env forced s = (Returns (), s1)
         \<and> applyChanges env forced s = (Returns (), issue GET_GL_ERROR s1))
   \<or> (\<exists>e s1. applyChanges_body env forced s = (Throws (Std e), s1)
         \<and> applyChanges env forced s =
             (Returns (), issue GET_GL_ERROR
                (WARN (''Problem detected while setting rendering internalData: '' @ what e) s1)))
   \<or> (\<exists>n s1. applyChanges_body env forced s = (Throws (Foreign n), s1)
         \<and> applyChanges env forced s = (Throws (Foreign n), s1))"
proof (cases "applyChanges_body env forced s")
  case (Pair r s1)
  show ?thesis
  proof (cases r)
    case (Returns u)
    then show ?thesis using Pair
      by (simp add: applyChanges_def andThen_def try_catch_def returns_def)
  next
    case (Throws x)
    show ?thesis
    proof (cases x)
      case (Std e)
      then show ?thesis using Pair Throws
        by (simp add: applyChanges_def andThen_def try_catch_def returns_def
            applyChanges_handler_def)
    next
      case (Foreign n)
      then show ?thesis using Pair Throws
        by (simp add: applyChanges_def andThen_def try_catch_def)
    qed
  qed
qed

text \<open>
  What \<open>applyChanges\<close> throws was thrown inside its \<open>try\<close> block, and what is thrown there
  was thrown by a collaborator.
\<close>

lemma andThen_throws:
  assumes "andThen f g s = (Throws e, s1)"
    and "\<And>s e s1. f s = (Throws e, s1) \<Longrightarrow> Q e"
    and "\<And>s e s1. g s = (Throws e, s1) \<Longrightarrow> Q e"
  shows "Q e"
proof (cases "f s")
  case (Pair r s0)
  show ?thesis
  proof (cases r)
    case (Returns u)
    then have "g s0 = (Throws e, s1)" using assms(1) Pair by (simp add: andThen_def)
    then show ?thesis by (rule assms(3))
  next
    case (Throws x)
    then have "f s = (Throws e, s1)" using assms(1) Pair by (simp add: andThen_def)
    then show ?thesis by (rule assms(2))
  qed
qed

lemma invoke_throws:
  "invoke env c s = (Throws e, s1) \<Longrightarrow> \<exists>history c. raises env history c = Some e"
  by (auto simp: invoke_def split: option.splits)

lemma bindInterfaceBlocks_throws:
  fixes env :: "'m env" and s :: "('p, 'm) InternalData"
  shows "bindInterfaceBlocks env forced blocks s = (Throws e, s1) \<Longrightarrow>
   \<exists>history c. raises env history c = Some e"
proof (induction blocks arbitrary: s e s1)
  case Nil
  then show ?case by (simp add: returns_def)
next
  case (Cons b blocks)
  obtain name location target where b: "b = (name, location, target)" by (cases b)
  from Cons.prems have "andThen
       (if location \<ge> 0 \<and> isCache name
        then invoke env (ParameterCache_bind name location target forced)
        else returns (\<lambda>s. s))
       (bindInterfaceBlocks env forced blocks) s = (Throws e, s1)"
    by (simp add: b)
  then show ?case
  proof (rule andThen_throws)
    fix s :: "('p, 'm) InternalData" and e s1
    assume "(if location \<ge> 0 \<and> isCache name
             then invoke env (ParameterCache_bind name location target forced)
             else returns (\<lambda>s. s)) s = (Throws e, s1)"
    then show "\<exists>history c. raises env history c = Some e"
      by (auto simp: returns_def dest: invoke_throws split: if_splits)
  next
    fix s :: "('p, 'm) InternalData" and e s1
    assume "bindInterfaceBlocks env forced blocks s = (Throws e, s1)"
    then show "\<exists>history c. raises env history c = Some e" by (rule Cons.IH)
  qed
qed

lemma applyChanges_body_throws:
  fixes env :: "'m env" and s :: "('p, 'm) InternalData"
  assumes "applyChanges_body env forced s = (Throws e, s1)"
  shows "\<exists>history c. raises env history c = Some e"
proof -
  let ?Q = "\<lambda>e. \<exists>history c. raises env history c = Some e"
  have sync: "?Q e"
    if "andThen (invoke env UniformRegistry_performGlobalSync)
          (andThen (invoke env (Shader_applyUniforms forced))
                   (returns (issue GET_GL_ERROR))) s = (Throws e, s1)"
    for s :: "('p, 'm) InternalData" and e s1
    using that
    by (auto simp: andThen_def returns_def dest: invoke_throws split: prod.splits outcome.splits)
  have shader: "?Q e"
    if "(if isShaderValid (activePipelineState s)
         then andThen (bindInterfaceBlocks env forced
                         (getInterfaceBlocks env (shader (activePipelineState s))))
             (andThen (invoke env UniformRegistry_performGlobalSync)
             (andThen (invoke env (Shader_applyUniforms forced))
                      (returns (issue GET_GL_ERROR)))) s
         else (Returns (), s)) = (Throws e, s1)"
    for s :: "('p, 'm) InternalData" and e s1
  proof (cases "isShaderValid (activePipelineState s)")
    case True
    with that have "andThen (bindInterfaceBlocks env forced
                         (getInterfaceBlocks env (shader (activePipelineState s))))
             (andThen (invoke env UniformRegistry_performGlobalSync)
             (andThen (invoke env (Shader_applyUniforms forced))
                      (returns (issue GET_GL_ERROR)))) s = (Throws e, s1)"
      by simp
    then show ?thesis
      by (rule andThen_throws) (erule bindInterfaceBlocks_throws sync)+
  next
    case False
    with that show ?thesis by simp
  qed
  have ret: "?Q e" if "returns f s = (Throws e, s1)"
    for f and s :: "('p, 'm) InternalData" and e s1
    using that by (simp add: returns_def)
  from assms show ?thesis
    unfolding applyChanges_body_def
    by (elim andThen_throws invoke_throws ret shader)
qed

lemma applyChanges_throws_foreign:
  assumes "fst (applyChanges env forced s) \<noteq> Returns ()"
  shows "\<exists>n history c. fst (applyChanges env forced s) = Throws (Foreign n)
           \<and> raises env history c = Some (Foreign n)"
proof -
  from applyChanges_cases [of env forced s] assms
  obtain n s1 where b: "applyChanges_body env forced s = (Throws (Foreign n), s1)"
    and a: "applyChanges env forced s = (Throws (Foreign n), s1)"
    by auto
  from applyChanges_body_throws [OF b] a show ?thesis by auto
qed

lemma applyChanges_body_apply_throws:
  assumes "raises env (calls s) (PipelineState_makeDiff forced) = None"
    and "raises env (calls s @ [PipelineState_makeDiff forced]) PipelineState_apply = Some e"
  shows "applyChanges_body env forced s =
     (Throws e, s\<lparr>activePipelineState := targetPipelineState s,
                  calls := calls s @ [PipelineState_makeDiff forced, PipelineState_apply]\<rparr>)"
  using assms
  by (simp add: applyChanges_body_def andThen_def invoke_def issue_def returns_def)

text \<open>
  Claim C8, as amended. \<open>applyChanges\<close> catches what is derived from \<open>std::exception\<close> and
  nothing else. When the block inside \<open>try\<close> returns, \<open>applyChanges\<close> returns. When the
  block throws an exception derived from \<open>std::exception\<close>, the exception is caught, one
  warning that carries its message is added to the warning channel, what was written
  before the throw stays written, and \<open>applyChanges\<close> returns. When the block throws an
  object of another class, \<open>applyChanges\<close> throws that object to its caller, with no warning
  and without the final error check. So with collaborators that throw nothing but
  exceptions derived from \<open>std::exception\<close>, \<open>applyChanges\<close> always returns. In particular,
  when \<open>PipelineState::apply\<close> throws such an exception, the active pipeline state has been
  overwritten with the target already and no slot of the cache has been written.
\<close>

theorem applyChanges_catches_std_exception:
  fixes s :: "('p, 'm) InternalData"
  shows "(\<forall>s1. applyChanges_body env forced s = (Returns (), s1) \<longrightarrow>
          applyChanges env forced s = (Returns (), issue GET_GL_ERROR s1))
    \<and> (\<forall>e s1. applyChanges_body env forced s = (Throws (Std e), s1) \<longrightarrow>
          applyChanges env forced s =
            (Returns (), issue GET_GL_ERROR
               (WARN (''Problem detected while setting rendering internalData: '' @ what e) s1)))
    \<and> (\<forall>n s1. applyChanges_body env forced s = (Throws (Foreign n), s1) \<longrightarrow>
          applyChanges env forced s = (Throws (Foreign n), s1))
    \<and> ((\<forall>history c n. raises env history c \<noteq> Some (Foreign n)) \<longrightarrow>
          fst (applyChanges env forced s) = Returns ())
    \<and> (\<forall>e. raises env (calls s) (PipelineState_makeDiff forced) = None
            \<and> raises env (calls s @ [PipelineState_makeDiff forced]) PipelineState_apply
                = Some (Std e) \<longrightarrow>
          fst (applyChanges env forced s) = Returns ()
          \<and> activePipelineState (snd (applyChanges env forced s)) = targetPipelineState s
          \<and> cache (snd (applyChanges env forced s)) = cache s
          \<and> warnings (snd (applyChanges env forced s)) =
              warnings s @ [''Problem detected while setting rendering internalData: '' @ what e])"
proof (intro conjI allI impI)
  fix s1 assume "applyChanges_body env forced s = (Returns (), s1)"
  then show "applyChanges env forced s = (Returns (), issue GET_GL_ERROR s1)"
    using applyChanges_cases [of env forced s] by auto
next
  fix e s1 assume "applyChanges_body env forced s = (Throws (Std e), s1)"
  then show "applyChanges env forced s =
            (Returns (), issue GET_GL_ERROR
               (WARN (''Problem detected while setting rendering internalData: '' @ what e) s1))"
    using applyChanges_cases [of env forced s] by auto
next
  fix n s1 assume "applyChanges_body env forced s = (Throws (Foreign n), s1)"
  then show "applyChanges env forced s = (Throws (Foreign n), s1)"
    using applyChanges_cases [of env forced s] by auto
next
  assume "\<forall>history c n. raises env history c \<noteq> Some (Foreign n)"
  then show "fst (applyChanges env forced s) = Returns ()"
    using applyChanges_throws_foreign [of env forced s] by blast
next
  fix e
  assume a: "raises env (calls s) (PipelineState_makeDiff forced) = None
            \<and> raises env (calls s @ [PipelineState_makeDiff forced]) PipelineState_apply
                = Some (Std e)"
  then have b: "applyChanges_body env forced s =
     (Throws (Std e), s\<lparr>activePipelineState := targetPipelineState s,
                  calls := calls s @ [PipelineState_makeDiff forced, PipelineState_apply]\<rparr>)"
    by (intro applyChanges_body_apply_throws) simp_all
  then have c: "applyChanges env forced s =
      (Returns (), issue GET_GL_ERROR
        (WARN (''Problem detected while setting rendering internalData: '' @ what e)
          (s\<lparr>activePipelineState := targetPipelineState s,
             calls := calls s @ [PipelineState_makeDiff forced, PipelineState_apply]\<rparr>)))"
    using applyChanges_cases [of env forced s] by auto
  show "fst (applyChanges env forced s) = Returns ()" by (simp add: c)
  show "activePipelineState (snd (applyChanges env forced s)) = targetPipelineState s"
    by (simp add: c issue_def WARN_def)
  show "cache (snd (applyChanges env forced s)) = cache s"
    by (simp add: c issue_def WARN_def)
  show "warnings (snd (applyChanges env forced s)) =
              warnings s @ [''Problem detected while setting rendering internalData: '' @ what e]"
    by (simp add: c issue_def WARN_def)
qed

text \<open>
  Claim C8 as stated fails: when \<open>PipelineState::apply\<close> throws an object of a class that
  is not derived from \<open>std::exception\<close>, \<open>applyChanges\<close> on a new context throws it to its
  caller and logs no warning.
\<close>

theorem applyChanges_foreign_exception_counterexample:
  "fst (applyChanges foreign_env False fresh_context) = Throws (Foreign 1)
   \<and> warnings (snd (applyChanges foreign_env False fresh_context)) = warnings fresh_context"
  by (simp add: applyChanges_def applyChanges_body_def try_catch_def andThen_def invoke_def
      issue_def returns_def foreign_env_def)

theorem applyChanges_catches_std_exception_witness:
  "applyChanges example_env False fresh_context
     = (Returns (), issue GET_GL_ERROR (snd (applyChanges_body example_env False fresh_context)))
   \<and> applyChanges_body failing_env False fresh_context
       = (Throws (Std (runtime_error ''device lost'')),
          fresh_context\<lparr>activePipelineState := targetPipelineState fresh_context,
            calls := calls fresh_context @ [PipelineState_makeDiff False, PipelineState_apply]\<rparr>)
   \<and> applyChanges failing_env False fresh_context
       = (Returns (), issue GET_GL_ERROR
           (WARN (''Problem detected while setting rendering internalData: ''
                    @ what (runtime_error ''device lost''))
              (fresh_context\<lparr>activePipelineState := targetPipelineState fresh_context,
                 calls := calls fresh_context @ [PipelineState_makeDiff False, PipelineState_apply]\<rparr>)))
   \<and> activePipelineState (snd (applyChanges failing_env False fresh_context))
       = targetPipelineState fresh_context
   \<and> warnings (snd (applyChanges failing_env False fresh_context))
       = warnings fresh_context
           @ [''Problem detected while setting rendering internalData: ''
                @ what (runtime_error ''device lost'')]
   \<and> applyChanges_body foreign_env False fresh_context
       = (Throws (Foreign 1),
          fresh_context\<lparr>activePipelineState := targetPipelineState fresh_context,
            calls := calls fresh_context @ [PipelineState_makeDiff False, PipelineState_apply]\<rparr>)
   \<and> applyChanges foreign_env False fresh_context
       = (Throws (Foreign 1),
          fresh_context\<lparr>activePipelineState := targetPipelineState fresh_context,
            calls := calls fresh_context @ [PipelineState_makeDiff False, PipelineState_apply]\<rparr>)"
proof -
  have never: "\<forall>history c n. raises example_env history c \<noteq> Some (Foreign n)"
    by (simp add: example_env_def)
  note E = applyChanges_catches_std_exception [of example_env False fresh_context]
  from E never have r: "fst (applyChanges example_env False fresh_context) = Returns ()"
    by blast
  have "fst (applyChanges_body example_env False fresh_context) = Returns ()"
  proof (cases "applyChanges_body example_env False fresh_context")
    case (Pair x s1)
    show ?thesis
    proof (cases x)
      case (Returns u)
      then show ?thesis using Pair by simp
    next
      case (Throws e)
      then have "applyChanges_body example_env False fresh_context = (Throws e, s1)"
        using Pair by simp
      then have "\<exists>history c. raises example_env history c = Some e"
        by (rule applyChanges_body_throws)
      then show ?thesis by (simp add: example_env_def)
    qed
  qed
  then have h0: "applyChanges_body example_env False fresh_context
      = (Returns (), snd (applyChanges_body example_env False fresh_context))"
    by (metis prod.collapse)
  from E h0 have t0: "applyChanges example_env False fresh_context
     = (Returns (), issue GET_GL_ERROR (snd (applyChanges_body example_env False fresh_context)))"
    by blast
  have h1: "raises failing_env (calls fresh_context) (PipelineState_makeDiff False) = None"
    by (simp add: failing_env_def)
  have h2: "raises failing_env (calls fresh_context @ [PipelineState_makeDiff False]) PipelineState_apply
       = Some (Std (runtime_error ''device lost''))"
    by (simp add: failing_env_def)
  have h3: "applyChanges_body failing_env False fresh_context
       = (Throws (Std (runtime_error ''device lost'')),
          fresh_context\<lparr>activePipelineState := targetPipelineState fresh_context,
            calls := calls fresh_context @ [PipelineState_makeDiff False, PipelineState_apply]\<rparr>)"
    using h1 h2
    by (simp add: applyChanges_body_def andThen_def invoke_def issue_def returns_def)
  note T = applyChanges_catches_std_exception [of failing_env False fresh_context]
  from T h3 have t2: "applyChanges failing_env False fresh_context
       = (Returns (), issue GET_GL_ERROR
           (WARN (''Problem detected while setting rendering internalData: ''
                    @ what (runtime_error ''device lost''))
              (fresh_context\<lparr>activePipelineState := targetPipelineState fresh_context,
                 calls := calls fresh_context @ [PipelineState_makeDiff False, PipelineState_apply]\<rparr>)))"
    by blast
  from T h1 h2 have t3: "activePipelineState (snd (applyChanges failing_env False fresh_context))
       = targetPipelineState fresh_context
     \<and> warnings (snd (applyChanges failing_env False fresh_context))
       = warnings fresh_context
           @ [''Problem detected while setting rendering internalData: ''
                @ what (runtime_error ''device lost'')]"
    by blast
  have f3: "applyChanges_body foreign_env False fresh_context
       = (Throws (Foreign 1),
          fresh_context\<lparr>activePipelineState := targetPipelineState fresh_context,
            calls := calls fresh_context @ [PipelineState_makeDiff False, PipelineState_apply]\<rparr>)"
    by (simp add: applyChanges_body_def andThen_def invoke_def issue_def returns_def
        foreign_env_def)
  note F = applyChanges_catches_std_exception [of foreign_env False fresh_context]
  from F f3 have t4: "applyChanges foreign_env False fresh_context
       = (Throws (Foreign 1),
          fresh_context\<lparr>activePipelineState := targetPipelineState fresh_context,
            calls := calls fresh_context @ [PipelineState_makeDiff False, PipelineState_apply]\<rparr>)"
    by blast
  show ?thesis using r t0 h3 t2 t3 f3 t4 by (intro conjI) simp_all
qed








section \<open>Properties of the mesh data\<close>

text \<open>
  Claim C7. After \<open>prepare\<close> the vertex data of a mesh with no vertices is not uploaded,
  whatever buffer it had before, whatever the flags of the strategy are and whatever the
  device does with the uploads.
\<close>

theorem prepare_no_vertices_not_uploaded:
  assumes "vertexCount (vertexData m) = 0"
  shows "\<not> isUploaded (vertexData (prepare strategy flags uploadThrows m))"
  using assms
  by (simp add: prepare_def prepare_vertexData_def empty_vd_def isUploaded_def
      removeGlBuffer_def destroy_def releaseLocalData_def Let_def)

lemma cleared_vertex_data_fields:
  "vertexCount cleared_vertex_data = 0"
  "bufferObject cleared_vertex_data = \<lparr>isValid = True, deviceData = replicate 12 0\<rparr>"
  by (simp_all add: cleared_vertex_data_def allocate_def markAsChanged_def upload_def
      MeshVertexData_ctor_def position_only_def resize_def isUploaded_def
      BufferObject_default_def Let_def)

theorem prepare_no_vertices_not_uploaded_witness:
  "vertexCount (vertexData cleared_mesh) = 0
   \<and> isUploaded (vertexData cleared_mesh)
   \<and> \<not> isUploaded (vertexData
          (prepare release_local_strategy example_flags (\<lambda>bytes hint. False) cleared_mesh))"
proof -
  have h: "vertexCount (vertexData cleared_mesh) = 0"
    by (simp add: cleared_mesh_def cleared_vertex_data_fields)
  have u: "isUploaded (vertexData cleared_mesh)"
    by (simp add: cleared_mesh_def isUploaded_def cleared_vertex_data_fields)
  from prepare_no_vertices_not_uploaded [OF h] h u show ?thesis by blast
qed

lemma updateBoundingBox_dim_fold:
  "j \<le> length mn \<Longrightarrow> j \<le> length mx \<Longrightarrow>
   length (fst (fold (updateBoundingBox_dim p) [0 ..< j] (mn, mx))) = length mn
   \<and> length (snd (fold (updateBoundingBox_dim p) [0 ..< j] (mn, mx))) = length mx
   \<and> (\<forall>d < length mn. fst (fold (updateBoundingBox_dim p) [0 ..< j] (mn, mx)) ! d
         = (if d < j \<and> float_less (p ! d) (mn ! d) then p ! d else mn ! d))
   \<and> (\<forall>d < length mx. snd (fold (updateBoundingBox_dim p) [0 ..< j] (mn, mx)) ! d
         = (if d < j \<and> float_less (mx ! d) (p ! d) then p ! d else mx ! d))"
proof (induction j)
  case 0
  show ?case by simp
next
  case (Suc j)
  define r where "r = fold (updateBoundingBox_dim p) [0 ..< j] (mn, mx)"
  have jl: "j < length mn" "j < length mx" using Suc.prems by simp_all
  from Suc.IH jl have
    l1: "length (fst r) = length mn" and l2: "length (snd r) = length mx"
    and v1: "\<And>d. d < length mn \<Longrightarrow> fst r ! d = (if d < j \<and> float_less (p ! d) (mn ! d) then p ! d else mn ! d)"
    and v2: "\<And>d. d < length mx \<Longrightarrow> snd r ! d = (if d < j \<and> float_less (mx ! d) (p ! d) then p ! d else mx ! d)"
    unfolding r_def by simp_all
  have step: "fold (updateBoundingBox_dim p) [0 ..< Suc j] (mn, mx) = updateBoundingBox_dim p j r"
    by (simp add: r_def)
  have atj: "fst r ! j = mn ! j" "snd r ! j = mx ! j" using v1 [OF jl(1)] v2 [OF jl(2)] by simp_all
  have f: "fst (updateBoundingBox_dim p j r)
      = (if float_less (p ! j) (mn ! j) then (fst r)[j := p ! j] else fst r)"
    by (simp add: updateBoundingBox_dim_def Let_def atj)
  have g: "snd (updateBoundingBox_dim p j r)
      = (if float_less (mx ! j) (p ! j) then (snd r)[j := p ! j] else snd r)"
    by (simp add: updateBoundingBox_dim_def Let_def atj)
  have a: "length (fst (updateBoundingBox_dim p j r)) = length mn"
    by (simp add: f l1)
  have b: "length (snd (updateBoundingBox_dim p j r)) = length mx"
    by (simp add: g l2)
  have c: "fst (updateBoundingBox_dim p j r) ! d
         = (if d < Suc j \<and> float_less (p ! d) (mn ! d) then p ! d else mn ! d)"
    if "d < length mn" for d
  proof (cases "d = j")
    case True
    then show ?thesis using jl l1 by (simp add: f atj)
  next
    case False
    then show ?thesis using that l1 v1 [OF that] by (auto simp: f less_Suc_eq)
  qed
  have d: "snd (updateBoundingBox_dim p j r) ! d
         = (if d < Suc j \<and> float_less (mx ! d) (p ! d) then p ! d else mx ! d)"
    if "d < length mx" for d
  proof (cases "d = j")
    case True
    then show ?thesis using jl l2 by (simp add: g atj)
  next
    case False
    then show ?thesis using that l2 v2 [OF that] by (auto simp: g less_Suc_eq)
  qed
  show ?case unfolding step using a b c d by blast
qed

lemma is_finite_Finite: "is_finite v \<Longrightarrow> \<exists>r. v = Finite r \<and> - FLT_MAX \<le> r \<and> r \<le> FLT_MAX"
  by (cases v) simp_all

lemma FLT_MAX_pos: "0 < FLT_MAX"
  by (simp add: FLT_MAX_def)

text \<open>
  The invariant of the loop over the vertices: after \<open>k\<close> vertices each entry of the two
  vectors is the least (greatest) of the start value and the coordinates seen so far.
\<close>

lemma updateBoundingBox_minmax_inv:
  assumes vals: "\<forall>i < cnt. length (g i) = n \<and> (\<forall>v \<in> set (g i). is_finite v)"
  shows "k \<le> cnt \<Longrightarrow>
     length (fst (updateBoundingBox_minmax g n k)) = n
   \<and> length (snd (updateBoundingBox_minmax g n k)) = n
   \<and> (\<forall>d < n. fst (updateBoundingBox_minmax g n k) ! d
         = Finite (Min (insert FLT_MAX ((\<lambda>i. float_value (g i ! d)) ` {..<k})))
       \<and> snd (updateBoundingBox_minmax g n k) ! d
         = Finite (Max (insert (- FLT_MAX) ((\<lambda>i. float_value (g i ! d)) ` {..<k}))))"
proof (induction k)
  case 0
  show ?case
    by (simp add: updateBoundingBox_minmax_def float_max_def float_lowest_def)
next
  case (Suc k)
  define r where "r = updateBoundingBox_minmax g n k"
  have kc: "k < cnt" using Suc.prems by simp
  from Suc.IH kc have
    l1: "length (fst r) = n" and l2: "length (snd r) = n"
    and m1: "\<And>d. d < n \<Longrightarrow> fst r ! d = Finite (Min (insert FLT_MAX ((\<lambda>i. float_value (g i ! d)) ` {..<k})))"
    and m2: "\<And>d. d < n \<Longrightarrow> snd r ! d = Finite (Max (insert (- FLT_MAX) ((\<lambda>i. float_value (g i ! d)) ` {..<k})))"
    unfolding r_def by simp_all
  have step: "updateBoundingBox_minmax g n (Suc k)
      = fold (updateBoundingBox_dim (g k)) [0 ..< n] (fst r, snd r)"
    by (simp add: updateBoundingBox_minmax_def updateBoundingBox_vertex_def r_def)
  note D = updateBoundingBox_dim_fold [of n "fst r" "snd r" "g k", unfolded l1 l2, simplified]
  have len: "length (g k) = n" and fin: "\<And>d. d < n \<Longrightarrow> is_finite (g k ! d)"
    using vals kc by auto
  have a: "fst (updateBoundingBox_minmax g n (Suc k)) ! d
         = Finite (Min (insert FLT_MAX ((\<lambda>i. float_value (g i ! d)) ` {..<Suc k})))"
    if d: "d < n" for d
  proof -
    from is_finite_Finite [OF fin [OF d]] obtain v where v: "g k ! d = Finite v" by blast
    let ?S = "insert FLT_MAX ((\<lambda>i. float_value (g i ! d)) ` {..<k})"
    have fS: "finite ?S" "?S \<noteq> {}" by simp_all
    define M where "M = Min ?S"
    have m1': "fst r ! d = Finite M" using m1 [OF d] by (simp only: M_def)
    have "fst (updateBoundingBox_minmax g n (Suc k)) ! d
        = (if float_less (g k ! d) (fst r ! d) then g k ! d else fst r ! d)"
      unfolding step using D d by simp
    also have "\<dots> = Finite (min v M)"
      unfolding v m1' by (auto simp: min_def)
    also have "min v M = min v (Min ?S)" by (simp only: M_def)
    also have "min v (Min ?S) = Min (insert v ?S)"
      by (rule Min_insert [symmetric]) (rule fS)+
    also have "insert v ?S = insert FLT_MAX ((\<lambda>i. float_value (g i ! d)) ` {..<Suc k})"
      by (auto simp: v lessThan_Suc)
    finally show ?thesis .
  qed
  have b: "snd (updateBoundingBox_minmax g n (Suc k)) ! d
         = Finite (Max (insert (- FLT_MAX) ((\<lambda>i. float_value (g i ! d)) ` {..<Suc k})))"
    if d: "d < n" for d
  proof -
    from is_finite_Finite [OF fin [OF d]] obtain v where v: "g k ! d = Finite v" by blast
    let ?S = "insert (- FLT_MAX) ((\<lambda>i. float_value (g i ! d)) ` {..<k})"
    have fS: "finite ?S" "?S \<noteq> {}" by simp_all
    define M where "M = Max ?S"
    have m2': "snd r ! d = Finite M" using m2 [OF d] by (simp only: M_def)
    have "snd (updateBoundingBox_minmax g n (Suc k)) ! d
        = (if float_less (snd r ! d) (g k ! d) then g k ! d else snd r ! d)"
      unfolding step using D d by simp
    also have "\<dots> = Finite (max v M)"
      unfolding v m2' by (auto simp: max_def)
    also have "max v M = max v (Max ?S)" by (simp only: M_def)
    also have "max v (Max ?S) = Max (insert v ?S)"
      by (rule Max_insert [symmetric]) (rule fS)+
    also have "insert v ?S = insert (- FLT_MAX) ((\<lambda>i. float_value (g i ! d)) ` {..<Suc k})"
      by (auto simp: v lessThan_Suc)
    finally show ?thesis .
  qed
  have c: "length (fst (updateBoundingBox_minmax g n (Suc k))) = n"
    "length (snd (updateBoundingBox_minmax g n (Suc k))) = n"
    unfolding step using D by simp_all
  show ?case using a b c by blast
qed

lemma updateBoundingBox_minmax_result:
  assumes vals: "\<forall>i < cnt. length (g i) = n \<and> (\<forall>v \<in> set (g i). is_finite v)"
    and pos: "0 < cnt" and d: "d < n"
  shows "fst (updateBoundingBox_minmax g n cnt) ! d
           = Finite (Min ((\<lambda>i. float_value (g i ! d)) ` {..<cnt}))"
    and "snd (updateBoundingBox_minmax g n cnt) ! d
           = Finite (Max ((\<lambda>i. float_value (g i ! d)) ` {..<cnt}))"
proof -
  let ?S = "(\<lambda>i. float_value (g i ! d)) ` {..<cnt}"
  have fS: "finite ?S" "?S \<noteq> {}" using pos by auto
  have bound: "- FLT_MAX \<le> x \<and> x \<le> FLT_MAX" if "x \<in> ?S" for x
  proof -
    from that obtain i where i: "i < cnt" "x = float_value (g i ! d)" by auto
    then have "is_finite (g i ! d)" using vals d by auto
    from is_finite_Finite [OF this] i(2) show ?thesis by auto
  qed
  define lo where "lo = Min ?S"
  define hi where "hi = Max ?S"
  have "lo \<in> ?S" "hi \<in> ?S" unfolding lo_def hi_def by (rule Min_in [OF fS], rule Max_in [OF fS])
  then have b: "lo \<le> FLT_MAX" "- FLT_MAX \<le> hi" using bound by blast+
  have "Min (insert FLT_MAX ?S) = min FLT_MAX lo" unfolding lo_def by (rule Min_insert [OF fS])
  also have "\<dots> = lo" using b by (simp add: min_def)
  finally have e1: "Min (insert FLT_MAX ?S) = Min ?S" by (simp only: lo_def)
  have "Max (insert (- FLT_MAX) ?S) = max (- FLT_MAX) hi" unfolding hi_def by (rule Max_insert [OF fS])
  also have "\<dots> = hi" using b by (simp add: max_def)
  finally have e2: "Max (insert (- FLT_MAX) ?S) = Max ?S" by (simp only: hi_def)
  note e = e1 e2
  from updateBoundingBox_minmax_inv [OF vals, of cnt] d
  have "fst (updateBoundingBox_minmax g n cnt) ! d = Finite (Min (insert FLT_MAX ?S))"
    and "snd (updateBoundingBox_minmax g n cnt) ! d = Finite (Max (insert (- FLT_MAX) ?S))"
    by blast+
  then show "fst (updateBoundingBox_minmax g n cnt) ! d = Finite (Min ?S)"
    and "snd (updateBoundingBox_minmax g n cnt) ! d = Finite (Max ?S)"
    by (simp_all only: e)
qed

text \<open>
  Claim C9. For vertex data with at least one vertex, a position attribute of \<open>n \<ge> 1\<close>
  values and finite coordinates, \<open>updateBoundingBox\<close> sets the box, in each of the first
  three dimensions that the attribute has, to the least and the greatest coordinate over
  all vertices, and to 0 in a dimension that the attribute does not have, and changes
  nothing else. With no vertices the box becomes the default box; with a position
  attribute of no values the vertex data is left as it is. For the three vertices
  (0,0,0), (1,0,0), (0,1,0) the box is [0,1] x [0,1] x [0,0].
\<close>

theorem updateBoundingBox_minima_maxima:
  assumes "unat (positionNumValues (vertexDescription vd)) = n"
    and "unat (vertexCount vd) = cnt"
  shows "(cnt = 0 \<longrightarrow> updateBoundingBox getValues vd = vd\<lparr>bb := Box_default\<rparr>)
    \<and> (0 < cnt \<and> n = 0 \<longrightarrow> updateBoundingBox getValues vd = vd)
    \<and> (0 < cnt \<and> 1 \<le> n
         \<and> (\<forall>i < cnt. length (getValues i) = n \<and> (\<forall>v \<in> set (getValues i). is_finite v)) \<longrightarrow>
       updateBoundingBox getValues vd =
         vd\<lparr>bb := \<lparr>minX = Finite (Min (coordinates getValues cnt 0)),
                   maxX = Finite (Max (coordinates getValues cnt 0)),
                   minY = (if 2 \<le> n then Finite (Min (coordinates getValues cnt 1)) else Finite 0),
                   maxY = (if 2 \<le> n then Finite (Max (coordinates getValues cnt 1)) else Finite 0),
                   minZ = (if 3 \<le> n then Finite (Min (coordinates getValues cnt 2)) else Finite 0),
                   maxZ = (if 3 \<le> n then Finite (Max (coordinates getValues cnt 2)) else Finite 0)\<rparr>\<rparr>)"
proof (intro conjI impI)
  assume "cnt = 0"
  then have "vertexCount vd = 0" using assms(2) by (simp add: unat_eq_zero)
  then show "updateBoundingBox getValues vd = vd\<lparr>bb := Box_default\<rparr>"
    by (simp add: updateBoundingBox_def)
next
  assume "0 < cnt \<and> n = 0"
  then have "vertexCount vd \<noteq> 0" "unat (positionNumValues (vertexDescription vd)) = 0"
    using assms by auto
  then show "updateBoundingBox getValues vd = vd"
    by (simp add: updateBoundingBox_def Let_def)
next
  assume a: "0 < cnt \<and> 1 \<le> n
         \<and> (\<forall>i < cnt. length (getValues i) = n \<and> (\<forall>v \<in> set (getValues i). is_finite v))"
  then have pos: "0 < cnt" and n1: "1 \<le> n"
    and vals: "\<forall>i < cnt. length (getValues i) = n \<and> (\<forall>v \<in> set (getValues i). is_finite v)"
    by blast+
  have nz: "vertexCount vd \<noteq> 0" using pos assms(2) by auto
  define mn where "mn = fst (updateBoundingBox_minmax getValues n cnt)"
  define mx where "mx = snd (updateBoundingBox_minmax getValues n cnt)"
  have mm: "updateBoundingBox_minmax getValues n cnt = (mn, mx)" by (simp add: mn_def mx_def)
  have lo: "mn ! d = Finite (Min (coordinates getValues cnt d))"
    and hi: "mx ! d = Finite (Max (coordinates getValues cnt d))" if "d < n" for d
    unfolding mn_def mx_def coordinates_def
    using updateBoundingBox_minmax_result [OF vals pos that] by blast+
  consider "n = 1" | "n = 2" | "3 \<le> n" using n1 by arith
  then show "updateBoundingBox getValues vd =
         vd\<lparr>bb := \<lparr>minX = Finite (Min (coordinates getValues cnt 0)),
                   maxX = Finite (Max (coordinates getValues cnt 0)),
                   minY = (if 2 \<le> n then Finite (Min (coordinates getValues cnt 1)) else Finite 0),
                   maxY = (if 2 \<le> n then Finite (Max (coordinates getValues cnt 1)) else Finite 0),
                   minZ = (if 3 \<le> n then Finite (Min (coordinates getValues cnt 2)) else Finite 0),
                   maxZ = (if 3 \<le> n then Finite (Max (coordinates getValues cnt 2)) else Finite 0)\<rparr>\<rparr>"
  proof cases
    case 1
    then show ?thesis
      using nz lo [of 0] hi [of 0] mm
      by (simp add: updateBoundingBox_def Let_def assms)
  next
    case 2
    then show ?thesis
      using nz lo [of 0] hi [of 0] lo [of 1] hi [of 1] mm
      by (simp add: updateBoundingBox_def Let_def assms)
  next
    case 3
    then have "0 < n" "1 < n" "2 < n" "n \<noteq> 1" "n \<noteq> 2" "\<not> n < 1" "2 \<le> n" by arith+
    then show ?thesis
      using nz 3 lo [of 0] hi [of 0] lo [of 1] hi [of 1] lo [of 2] hi [of 2]
      by (simp add: updateBoundingBox_def Let_def assms mm)
  qed
qed

lemma triangle_vertex_data_fields:
  "unat (positionNumValues (vertexDescription triangle_vertex_data)) = 3"
  "unat (vertexCount triangle_vertex_data) = 3"
  by (simp_all add: triangle_vertex_data_def allocate_def markAsChanged_def position_only_def)

lemma triangle_positions_finite:
  "\<forall>i < 3. length (triangle_positions i) = 3 \<and> (\<forall>v \<in> set (triangle_positions i). is_finite v)"
proof (intro allI impI)
  fix i :: nat assume "i < 3"
  then consider "i = 0" | "i = 1" | "i = 2" by arith
  then show "length (triangle_positions i) = 3 \<and> (\<forall>v \<in> set (triangle_positions i). is_finite v)"
    by cases (simp_all add: triangle_positions_def FLT_MAX_def)
qed

lemma triangle_coordinates:
  "coordinates triangle_positions 3 0 = {0, 1}"
  "coordinates triangle_positions 3 1 = {0, 1}"
  "coordinates triangle_positions 3 2 = {0}"
  "coordinates triangle_positions 3 (Suc 0) = {0, 1}"
proof -
  have three: "{..<3 :: nat} = {0, 1, 2}" by auto
  show "coordinates triangle_positions 3 0 = {0, 1}"
    "coordinates triangle_positions 3 1 = {0, 1}"
    "coordinates triangle_positions 3 2 = {0}"
    "coordinates triangle_positions 3 (Suc 0) = {0, 1}"
    unfolding coordinates_def three by (auto simp: triangle_positions_def)
qed

theorem updateBoundingBox_minima_maxima_witness:
  "unat (positionNumValues (vertexDescription triangle_vertex_data)) = 3
   \<and> unat (vertexCount triangle_vertex_data) = 3
   \<and> updateBoundingBox triangle_positions triangle_vertex_data =
       triangle_vertex_data
         \<lparr>bb := \<lparr>minX = Finite 0, maxX = Finite 1, minY = Finite 0, maxY = Finite 1,
                 minZ = Finite 0, maxZ = Finite 0\<rparr>\<rparr>
   \<and> unat (vertexCount MeshVertexData_ctor) = 0
   \<and> updateBoundingBox triangle_positions MeshVertexData_ctor
       = MeshVertexData_ctor\<lparr>bb := Box_default\<rparr>"
proof -
  note h = triangle_vertex_data_fields
  have e: "unat (positionNumValues (vertexDescription MeshVertexData_ctor)) = 0"
    "unat (vertexCount MeshVertexData_ctor) = 0"
    by (simp_all add: MeshVertexData_ctor_def VertexDescription_default_def)
  from updateBoundingBox_minima_maxima [OF h, of triangle_positions] triangle_positions_finite
  have "updateBoundingBox triangle_positions triangle_vertex_data =
         triangle_vertex_data\<lparr>bb := \<lparr>minX = Finite (Min (coordinates triangle_positions 3 0)),
                   maxX = Finite (Max (coordinates triangle_positions 3 0)),
                   minY = (if (2 :: nat) \<le> 3 then Finite (Min (coordinates triangle_positions 3 1)) else Finite 0),
                   maxY = (if (2 :: nat) \<le> 3 then Finite (Max (coordinates triangle_positions 3 1)) else Finite 0),
                   minZ = (if (3 :: nat) \<le> 3 then Finite (Min (coordinates triangle_positions 3 2)) else Finite 0),
                   maxZ = (if (3 :: nat) \<le> 3 then Finite (Max (coordinates triangle_positions 3 2)) else Finite 0)\<rparr>\<rparr>"
    by simp
  then have box: "updateBoundingBox triangle_positions triangle_vertex_data =
       triangle_vertex_data
         \<lparr>bb := \<lparr>minX = Finite 0, maxX = Finite 1, minY = Finite 0, maxY = Finite 1,
                 minZ = Finite 0, maxZ = Finite 0\<rparr>\<rparr>"
    by (simp add: triangle_coordinates)
  from updateBoundingBox_minima_maxima [OF e, of triangle_positions]
  have none: "updateBoundingBox triangle_positions MeshVertexData_ctor
       = MeshVertexData_ctor\<lparr>bb := Box_default\<rparr>"
    by simp
  show ?thesis using h box e(2) none by blast
qed


end
